theory Spec2Isabelle
  imports Complex_Main "HOL-Library.Log_Nat"
begin

section \<open>Double-precision arithmetic\<close>

text \<open>
  The lengths compared by detectIn are C++ doubles. A double is a finite value (a
  rational), an infinity or NaN; the sign of zero is not kept (nothing here divides, and
  both zeros compare equal). Each operation gives the exact result rounded to the nearest
  double, ties to the even significand (IEEE 754 binary64: 53 bits of precision, exponents
  from -1022 to 1023, gradual underflow, overflow to infinity), one rounding per
  operation. The result of an operation is always a double; a \<open>Finite\<close> value given
  as an input is taken as it is.
\<close>

datatype double = Finite rat | PlusInf | MinusInf | NaN

definition pow2 :: "int \<Rightarrow> rat" where
  "pow2 k = (if 0 \<le> k then 2 ^ nat k else 1 / 2 ^ nat (- k))"

definition round_half_even :: "rat \<Rightarrow> int" where
  "round_half_even r =
     (let f = \<lfloor>r\<rfloor>; d = r - of_int f
      in if d < 1 / 2 then f
         else if 1 / 2 < d then f + 1
         else if even f then f else f + 1)"

text \<open>The exponent of a positive rational: the \<open>k\<close> with \<open>2^k \<le> x < 2^(k+1)\<close>.\<close>

definition floor_log2 :: "rat \<Rightarrow> int" where
  "floor_log2 x =
     (let (a, b) = quotient_of x; k = bitlen a - bitlen b
      in if pow2 k \<le> x then k else k - 1)"

text \<open>
  Rounding of an exact result: the spacing of the doubles around \<open>x\<close> is
  \<open>2^(e - 52)\<close>, where \<open>e\<close> is the exponent of \<open>x\<close>, at least -1022.
\<close>

definition d_round :: "rat \<Rightarrow> double" where
  "d_round x =
     (if x = 0 then Finite 0
      else
        (let e = max (floor_log2 \<bar>x\<bar>) (- 1022);
             q = pow2 (e - 52);
             n = round_half_even (\<bar>x\<bar> / q)
         in if 1023 < e \<or> (e = 1023 \<and> n = 2 ^ 53)
            then (if 0 < x then PlusInf else MinusInf)
            else Finite (sgn x * of_int n * q)))"

fun d_neg :: "double \<Rightarrow> double" where
  "d_neg (Finite a) = Finite (- a)"
| "d_neg PlusInf = MinusInf"
| "d_neg MinusInf = PlusInf"
| "d_neg NaN = NaN"

fun d_add :: "double \<Rightarrow> double \<Rightarrow> double" where
  "d_add (Finite a) (Finite b) = d_round (a + b)"
| "d_add NaN b = NaN"
| "d_add a NaN = NaN"
| "d_add PlusInf MinusInf = NaN"
| "d_add MinusInf PlusInf = NaN"
| "d_add PlusInf b = PlusInf"
| "d_add MinusInf b = MinusInf"
| "d_add a PlusInf = PlusInf"
| "d_add a MinusInf = MinusInf"

definition d_sub :: "double \<Rightarrow> double \<Rightarrow> double" where
  "d_sub a b = d_add a (d_neg b)"

fun d_sgn :: "double \<Rightarrow> int" where
  "d_sgn (Finite a) = (if 0 < a then 1 else if a < 0 then - 1 else 0)"
| "d_sgn PlusInf = 1"
| "d_sgn MinusInf = - 1"
| "d_sgn NaN = 0"

fun d_mul :: "double \<Rightarrow> double \<Rightarrow> double" where
  "d_mul (Finite a) (Finite b) = d_round (a * b)"
| "d_mul NaN b = NaN"
| "d_mul a NaN = NaN"
| "d_mul a b =
     (if d_sgn a * d_sgn b = 0 then NaN
      else if 0 < d_sgn a * d_sgn b then PlusInf else MinusInf)"

text \<open>The comparison \<open>a > b\<close>: false as soon as one side is NaN.\<close>

fun d_gt :: "double \<Rightarrow> double \<Rightarrow> bool" where
  "d_gt NaN b = False"
| "d_gt a NaN = False"
| "d_gt (Finite a) (Finite b) = (b < a)"
| "d_gt PlusInf PlusInf = False"
| "d_gt PlusInf b = True"
| "d_gt a PlusInf = False"
| "d_gt MinusInf b = False"
| "d_gt a MinusInf = True"

section \<open>Segment feature extraction (hierarchicalDirectSegmentDetector.cpp)\<close>

text \<open>
  A candidate segment of the external detector (dseg::SegmentHypothesis): two endpoints,
  whose coordinates are doubles.
\<close>

record SegmentHypothesis =
  x1 :: double
  y1 :: double
  x2 :: double
  y2 :: double

text \<open>The appearance snapshot built from the winning segment.\<close>

datatype Appearance = AppearanceSegment SegmentHypothesis

text \<open>
  The measurement of a feature: the vector \<open>measurement.x\<close> and \<open>matchScore\<close>.
\<close>

record Measurement =
  meas_x :: "double list"
  matchScore :: double

record FeatureSegment =
  measurement :: Measurement
  appearancePtr :: "Appearance option"

text \<open>
  Lines 30 to 32 of detectIn: the squared length of a candidate, as the doubles
  \<open>dx\<close>, \<open>dy\<close> and \<open>dx*dx + dy*dy\<close>.
\<close>

definition sqrLength :: "SegmentHypothesis \<Rightarrow> double" where
  "sqrLength seg =
     (let dx = d_sub (x1 seg) (x2 seg);
          dy = d_sub (y1 seg) (y2 seg)
      in d_add (d_mul dx dx) (d_mul dy dy))"

text \<open>
  The loop of lines 26 to 56: \<open>i\<close> runs over the indices of the set, \<open>bestId\<close> and
  \<open>bestSqrLength\<close> are the loop's two variables. The region-of-interest test of the
  source is commented out, so the body only compares lengths.
\<close>

function scanSegments :: "SegmentHypothesis list \<Rightarrow> nat \<Rightarrow> int \<Rightarrow> double \<Rightarrow> int" where
  "scanSegments segs i bestId bestSqrLength =
     (if i < length segs then
        (let seg = segs ! i in
         if d_gt (sqrLength seg) bestSqrLength
         then scanSegments segs (i + 1) (int i) (sqrLength seg)
         else scanSegments segs (i + 1) bestId bestSqrLength)
      else bestId)"
  by pat_completeness auto
termination
  by (relation "measure (\<lambda>(segs, i, bestId, bestSqrLength). length segs - i)") auto

declare scanSegments.simps [simp del]

text \<open>
  Lines 60 to 66: what is written into the feature for the winning segment. The
  measurement of a segment feature has four components. A write beyond the end of the
  vector is out of bounds in the source (undefined there); the model leaves such a
  component out, and the properties below ask for a vector of at least four components.
\<close>

definition writeFeature :: "FeatureSegment \<Rightarrow> SegmentHypothesis \<Rightarrow> FeatureSegment" where
  "writeFeature featPtr seg =
     (let m0 = measurement featPtr;
          m1 = m0\<lparr>meas_x := (meas_x m0)[0 := x1 seg]\<rparr>;
          m2 = m1\<lparr>meas_x := (meas_x m1)[1 := y1 seg]\<rparr>;
          m3 = m2\<lparr>meas_x := (meas_x m2)[2 := x2 seg]\<rparr>;
          m4 = m3\<lparr>meas_x := (meas_x m3)[3 := y2 seg]\<rparr>;
          m5 = m4\<lparr>matchScore := Finite 1\<rparr>
      in featPtr\<lparr>measurement := m5, appearancePtr := Some (AppearanceSegment seg)\<rparr>)"

text \<open>
  detectIn. The external detection routine \<open>detector.detectSegment(image, roiPtr, set)\<close>
  is a parameter: it maps the image and the region of interest to the ordered
  collection of candidates. The result is the returned boolean and the feature
  as it is left behind \<open>featPtr\<close>. \<open>bestSqrLength\<close> starts at the double -1.
\<close>

definition detectIn ::
  "('img \<Rightarrow> 'roi \<Rightarrow> SegmentHypothesis list) \<Rightarrow> 'img \<Rightarrow> FeatureSegment \<Rightarrow> 'roi
     \<Rightarrow> bool \<times> FeatureSegment" where
  "detectIn detectSegment img featPtr roiPtr =
     (let segs = detectSegment img roiPtr in
      if length segs > 0 then
        (let bestId = scanSegments segs 0 (- 1) (Finite (- 1)) in
         if bestId \<ge> 0
         then (True, writeFeature featPtr (segs ! nat bestId))
         else (False, featPtr))
      else (False, featPtr))"

text \<open>
  The squared Euclidean length in the spec's words: the exact value, without rounding,
  for a segment with finite coordinates.
\<close>

fun d_val :: "double \<Rightarrow> rat" where
  "d_val (Finite a) = a"
| "d_val PlusInf = 0"
| "d_val MinusInf = 0"
| "d_val NaN = 0"

definition exactSqrLength :: "SegmentHypothesis \<Rightarrow> rat" where
  "exactSqrLength seg =
     (d_val (x1 seg) - d_val (x2 seg)) * (d_val (x1 seg) - d_val (x2 seg)) +
     (d_val (y1 seg) - d_val (y2 seg)) * (d_val (y1 seg) - d_val (y2 seg))"

text \<open>
  The candidates of the spec's example (lengths 1, 10 and about 7.07) and a feature with
  a measurement of four components. Two candidates whose exact squared lengths differ
  by \<open>2^-62\<close>, below the precision of a double near 1. A candidate with a NaN
  coordinate.
\<close>

definition example_segments :: "SegmentHypothesis list" where
  "example_segments =
     [\<lparr>x1 = Finite 0, y1 = Finite 0, x2 = Finite 1, y2 = Finite 0\<rparr>,
      \<lparr>x1 = Finite 0, y1 = Finite 0, x2 = Finite 10, y2 = Finite 0\<rparr>,
      \<lparr>x1 = Finite 0, y1 = Finite 0, x2 = Finite 5, y2 = Finite 5\<rparr>]"

definition example_feature :: FeatureSegment where
  "example_feature =
     \<lparr>measurement = \<lparr>meas_x = [Finite 7, Finite 7, Finite 7, Finite 7], matchScore = Finite 0\<rparr>,
      appearancePtr = None\<rparr>"

definition rounding_tie_segments :: "SegmentHypothesis list" where
  "rounding_tie_segments =
     [\<lparr>x1 = Finite 0, y1 = Finite 0, x2 = Finite 1, y2 = Finite (1 / 2 ^ 15)\<rparr>,
      \<lparr>x1 = Finite 0, y1 = Finite 0, x2 = Finite (1 + 1 / 2 ^ 31), y2 = Finite 0\<rparr>]"

definition nan_segments :: "SegmentHypothesis list" where
  "nan_segments = [\<lparr>x1 = NaN, y1 = Finite 0, x2 = Finite 1, y2 = Finite 0\<rparr>]"

section \<open>The entity graph of the map (test_main.cpp)\<close>

text \<open>
  Objects live in a store and are named by their address (the shared pointers of the
  source). Each kind of object has its own store, a list indexed by address; a new
  object is appended, so an address stays valid once given. An address beyond the store
  stands for a null pointer: dereferencing it is an error.
\<close>

type_synonym ref = nat

datatype error = CapacityExceeded | NullPointer

definition deref :: "'a list \<Rightarrow> ref \<Rightarrow> 'a option" where
  "deref store p = (if p < length store then Some (store ! p) else None)"

text \<open>
  The containers \<open>robots\<close>, \<open>sensors\<close>, \<open>landmarks\<close> and \<open>observations\<close> are
  ordered maps from an id to a pointer (printSlam reads \<open>iter->second\<close>, initSomeLmks
  reads \<open>robots[1]->sensors[1]\<close>). They are association lists kept in ascending key
  order, the order in which the source's iterators visit them; \<open>map_put\<close> is
  \<open>m[k] = v\<close>: it replaces the value of a key already present.
\<close>

fun map_put :: "nat \<Rightarrow> 'v \<Rightarrow> (nat \<times> 'v) list \<Rightarrow> (nat \<times> 'v) list" where
  "map_put k v [] = [(k, v)]"
| "map_put k v ((k', v') # rest) =
     (if k < k' then (k, v) # (k', v') # rest
      else if k = k' then (k, v) # rest
      else (k', v') # map_put k v rest)"

text \<open>
  Modelled from the spec: the id allocator behind \<open>robotIds\<close>, \<open>sensorIds\<close> and
  \<open>landmarkIds\<close> is missing from the sources. It owns an increasing counter and the
  released ids; \<open>getId\<close> returns the smallest released id if there is one, else the
  next counter value. The first id is 1 (initSomeLmks reads \<open>robots[1]->sensors[1]\<close>
  of the first robot and its first sensor).
\<close>

record IdPool =
  counter :: nat
  released :: "nat list"

definition new_IdPool :: IdPool where
  "new_IdPool = \<lparr>counter = 1, released = []\<rparr>"

definition getId :: "IdPool \<Rightarrow> nat \<times> IdPool" where
  "getId p =
     (case released p of
        [] \<Rightarrow> (counter p, p\<lparr>counter := counter p + 1\<rparr>)
      | r # rs \<Rightarrow> (let m = fold min rs r in (m, p\<lparr>released := remove1 m (released p)\<rparr>)))"

text \<open>
  The map object. \<open>max_size\<close> is the capacity of the state vector and \<open>used_states\<close>
  the number of states handed out so far (the high-water mark of the arena).
\<close>

record MapAbstract =
  max_size :: nat
  used_states :: nat
  robotIds :: IdPool
  sensorIds :: IdPool
  landmarkIds :: IdPool
  robots :: "(nat \<times> ref) list"
  landmarks :: "(nat \<times> ref) list"

record RobotAbstract =
  rob_id :: nat
  rob_name :: string
  rob_state :: "nat list"
  rob_sensors :: "(nat \<times> ref) list"
  rob_slamMap :: "ref option"

record SensorAbstract =
  sen_id :: nat
  sen_name :: string
  sen_isInMap :: bool
  sen_state :: "nat list"
  sen_robot :: "ref option"
  sen_observations :: "(nat \<times> ref) list"

record LandmarkAbstract =
  lmk_id :: nat
  lmk_name :: string
  lmk_state :: "nat list"
  lmk_slamMap :: "ref option"
  lmk_observations :: "(nat \<times> ref) list"

record ObservationAbstract =
  obs_id :: nat
  obs_sensor :: "ref option"
  obs_landmark :: "ref option"

record world =
  maps :: "MapAbstract list"
  robs :: "RobotAbstract list"
  sens :: "SensorAbstract list"
  lmks :: "LandmarkAbstract list"
  obss :: "ObservationAbstract list"

definition empty_world :: world where
  "empty_world = \<lparr>maps = [], robs = [], sens = [], lmks = [], obss = []\<rparr>"

text \<open>
  The state sizes \<open>Robot3DConstantVelocity::size()\<close>, \<open>SensorPinHole::size()\<close> and
  \<open>LandmarkAnchoredHomogeneousPoint::size()\<close> are declared outside the sources: they
  are parameters.
\<close>

record sizes =
  size_robCV :: nat
  size_senPH :: nat
  size_lmkAHP :: nat

text \<open>
  Modelled from the spec: the state arena of MapAbstract (its constructor,
  \<open>unusedStates\<close>, the allocation done by the entity constructors and
  \<open>ia_used_states\<close>) is missing from the sources. \<open>allocate\<close> hands out a
  contiguous index range inside \<open>[0, max_size)\<close> or fails with the capacity error;
  nothing under the sources releases a slot, so the first free range starts at the
  high-water mark. \<open>unusedStates N\<close> probes whether \<open>N\<close> more states fit.
\<close>

definition new_MapAbstract :: "nat \<Rightarrow> MapAbstract" where
  "new_MapAbstract size_map =
     \<lparr>max_size = size_map, used_states = 0,
      robotIds = new_IdPool, sensorIds = new_IdPool, landmarkIds = new_IdPool,
      robots = [], landmarks = []\<rparr>"

definition unusedStates :: "MapAbstract \<Rightarrow> nat \<Rightarrow> bool" where
  "unusedStates m N \<longleftrightarrow> used_states m + N \<le> max_size m"

definition allocate :: "MapAbstract \<Rightarrow> nat \<Rightarrow> error + (nat list \<times> MapAbstract)" where
  "allocate m N =
     (if unusedStates m N
      then Inr ([used_states m ..< used_states m + N], m\<lparr>used_states := used_states m + N\<rparr>)
      else Inl CapacityExceeded)"

definition ia_used_states :: "MapAbstract \<Rightarrow> nat list" where
  "ia_used_states m = [0 ..< used_states m]"

text \<open>
  Modelled from the spec: the link operations of the entity classes are missing from
  the sources. An owner "owns a mapping from id to" its parts, keys unique, so the
  owner's side stores the pointer under the id of the part; the part's side sets its
  back-reference.
\<close>

definition linkToRobot :: "ref \<Rightarrow> nat \<Rightarrow> MapAbstract \<Rightarrow> MapAbstract" where
  "linkToRobot robPtr rid m = m\<lparr>robots := map_put rid robPtr (robots m)\<rparr>"

definition linkToLandmark :: "ref \<Rightarrow> nat \<Rightarrow> MapAbstract \<Rightarrow> MapAbstract" where
  "linkToLandmark lmkPtr lid m = m\<lparr>landmarks := map_put lid lmkPtr (landmarks m)\<rparr>"

definition linkToSensor :: "ref \<Rightarrow> nat \<Rightarrow> RobotAbstract \<Rightarrow> RobotAbstract" where
  "linkToSensor senPtr sid rob = rob\<lparr>rob_sensors := map_put sid senPtr (rob_sensors rob)\<rparr>"

definition sen_linkToObservation :: "ref \<Rightarrow> nat \<Rightarrow> SensorAbstract \<Rightarrow> SensorAbstract" where
  "sen_linkToObservation obsPtr oid sen =
     sen\<lparr>sen_observations := map_put oid obsPtr (sen_observations sen)\<rparr>"

definition lmk_linkToObservation :: "ref \<Rightarrow> nat \<Rightarrow> LandmarkAbstract \<Rightarrow> LandmarkAbstract" where
  "lmk_linkToObservation obsPtr oid lmk =
     lmk\<lparr>lmk_observations := map_put oid obsPtr (lmk_observations lmk)\<rparr>"

text \<open>
  The result of an operation: the error or the returned pointer, and the world as the
  operation leaves it. After an error the world is the one reached when the error was
  raised.
\<close>

type_synonym 'a result = "(error + 'a) \<times> world"

text \<open>
  newRobot (lines 108 to 118). The id is taken from \<open>robotIds\<close> first; the
  constructor then allocates the robot's states in the map; the robot is registered in
  the map under its id and its back-reference is set.
\<close>

definition newRobot :: "sizes \<Rightarrow> ref \<Rightarrow> string \<Rightarrow> world \<Rightarrow> ref result" where
  "newRobot sz slamMapPtr name w =
     (case deref (maps w) slamMapPtr of
        None \<Rightarrow> (Inl NullPointer, w)
      | Some m \<Rightarrow>
          (let (rid, pool) = getId (robotIds m);
               m1 = m\<lparr>robotIds := pool\<rparr>;
               w1 = w\<lparr>maps := (maps w)[slamMapPtr := m1]\<rparr>
           in case allocate m1 (size_robCV sz) of
                Inl e \<Rightarrow> (Inl e, w1)
              | Inr (ia, m2) \<Rightarrow>
                  (let robPtr = length (robs w1);
                       rob0 = \<lparr>rob_id = 0, rob_name = [], rob_state = ia,
                               rob_sensors = [], rob_slamMap = None\<rparr>;
                       rob1 = rob0\<lparr>rob_id := rid\<rparr>;
                       rob2 = rob1\<lparr>rob_name := name\<rparr>;
                       m3 = linkToRobot robPtr (rob_id rob2) m2;
                       rob3 = rob2\<lparr>rob_slamMap := Some slamMapPtr\<rparr>
                   in (Inr robPtr,
                       w1\<lparr>maps := (maps w1)[slamMapPtr := m3], robs := robs w1 @ [rob3]\<rparr>))))"

text \<open>
  newSensor (lines 125 to 136). The map is reached through the robot's back-reference.
  The sensor's constructor allocates states only when the sensor is estimated in the
  map.
\<close>

definition newSensor :: "sizes \<Rightarrow> ref \<Rightarrow> string \<Rightarrow> bool \<Rightarrow> world \<Rightarrow> ref result" where
  "newSensor sz robPtr name isInMap w =
     (case deref (robs w) robPtr of
        None \<Rightarrow> (Inl NullPointer, w)
      | Some rob \<Rightarrow>
     (case rob_slamMap rob of
        None \<Rightarrow> (Inl NullPointer, w)
      | Some slamMapPtr \<Rightarrow>
     (case deref (maps w) slamMapPtr of
        None \<Rightarrow> (Inl NullPointer, w)
      | Some m \<Rightarrow>
          (let (sid, pool) = getId (sensorIds m);
               m1 = m\<lparr>sensorIds := pool\<rparr>;
               w1 = w\<lparr>maps := (maps w)[slamMapPtr := m1]\<rparr>
           in case (if isInMap then allocate m1 (size_senPH sz) else Inr ([], m1)) of
                Inl e \<Rightarrow> (Inl e, w1)
              | Inr (ia, m2) \<Rightarrow>
                  (let senPtr = length (sens w1);
                       sen0 = \<lparr>sen_id = 0, sen_name = [], sen_isInMap = isInMap,
                               sen_state = ia, sen_robot = None, sen_observations = []\<rparr>;
                       sen1 = sen0\<lparr>sen_id := sid\<rparr>;
                       sen2 = sen1\<lparr>sen_name := name\<rparr>;
                       rob1 = linkToSensor senPtr (sen_id sen2) rob;
                       sen3 = sen2\<lparr>sen_robot := Some robPtr\<rparr>
                   in (Inr senPtr,
                       w1\<lparr>maps := (maps w1)[slamMapPtr := m2],
                          robs := (robs w1)[robPtr := rob1],
                          sens := sens w1 @ [sen3]\<rparr>))))))"

text \<open>
  newObservation (lines 143 to 152). The observation gets the id 0, its two
  back-references are set, then the sensor and the landmark store it under its id.
\<close>

definition newObservation :: "ref \<Rightarrow> ref \<Rightarrow> world \<Rightarrow> ref result" where
  "newObservation senPtr lmkPtr w =
     (let obsPtr = length (obss w);
          obs0 = \<lparr>obs_id = 0, obs_sensor = None, obs_landmark = None\<rparr>;
          obs1 = obs0\<lparr>obs_id := 0\<rparr>;
          obs2 = obs1\<lparr>obs_sensor := Some senPtr\<rparr>;
          obs3 = obs2\<lparr>obs_landmark := Some lmkPtr\<rparr>;
          w1 = w\<lparr>obss := obss w @ [obs3]\<rparr>
      in case deref (sens w1) senPtr of
           None \<Rightarrow> (Inl NullPointer, w1)
         | Some sen \<Rightarrow>
             (let w2 = w1\<lparr>sens := (sens w1)[senPtr := sen_linkToObservation obsPtr (obs_id obs3) sen]\<rparr>
              in case deref (lmks w2) lmkPtr of
                   None \<Rightarrow> (Inl NullPointer, w2)
                 | Some lmk \<Rightarrow>
                     (Inr obsPtr,
                      w2\<lparr>lmks := (lmks w2)[lmkPtr := lmk_linkToObservation obsPtr (obs_id obs3) lmk]\<rparr>)))"

text \<open>
  The two loops of newLandmark (lines 171 to 177): over the sensors of one robot, and
  over the robots of the map, both in the order of the ids.
\<close>

fun observeSensors :: "(nat \<times> ref) list \<Rightarrow> ref \<Rightarrow> world \<Rightarrow> unit result" where
  "observeSensors [] lmkPtr w = (Inr (), w)"
| "observeSensors ((sid, senPtr) # rest) lmkPtr w =
     (case newObservation senPtr lmkPtr w of
        (Inl e, w') \<Rightarrow> (Inl e, w')
      | (Inr obsPtr, w') \<Rightarrow> observeSensors rest lmkPtr w')"

fun observeRobots :: "(nat \<times> ref) list \<Rightarrow> ref \<Rightarrow> world \<Rightarrow> unit result" where
  "observeRobots [] lmkPtr w = (Inr (), w)"
| "observeRobots ((rid, robPtr) # rest) lmkPtr w =
     (case deref (robs w) robPtr of
        None \<Rightarrow> (Inl NullPointer, w)
      | Some rob \<Rightarrow>
          (case observeSensors (rob_sensors rob) lmkPtr w of
             (Inl e, w') \<Rightarrow> (Inl e, w')
           | (Inr u, w') \<Rightarrow> observeRobots rest lmkPtr w'))"

text \<open>newLandmark (lines 158 to 180).\<close>

definition newLandmark :: "sizes \<Rightarrow> ref \<Rightarrow> world \<Rightarrow> ref result" where
  "newLandmark sz slamMapPtr w =
     (case deref (maps w) slamMapPtr of
        None \<Rightarrow> (Inl NullPointer, w)
      | Some m \<Rightarrow>
          (let (lid, pool) = getId (landmarkIds m);
               m1 = m\<lparr>landmarkIds := pool\<rparr>;
               w1 = w\<lparr>maps := (maps w)[slamMapPtr := m1]\<rparr>
           in case allocate m1 (size_lmkAHP sz) of
                Inl e \<Rightarrow> (Inl e, w1)
              | Inr (ia, m2) \<Rightarrow>
                  (let lmkPtr = length (lmks w1);
                       lmk0 = \<lparr>lmk_id = 0, lmk_name = [], lmk_state = ia,
                               lmk_slamMap = None, lmk_observations = []\<rparr>;
                       lmk1 = lmk0\<lparr>lmk_id := lid\<rparr>;
                       lmk2 = lmk1\<lparr>lmk_name := []\<rparr>;
                       m3 = linkToLandmark lmkPtr (lmk_id lmk2) m2;
                       lmk3 = lmk2\<lparr>lmk_slamMap := Some slamMapPtr\<rparr>;
                       w2 = w1\<lparr>maps := (maps w1)[slamMapPtr := m3], lmks := lmks w1 @ [lmk3]\<rparr>
                   in case observeRobots (robots m3) lmkPtr w2 of
                        (Inl e, w3) \<Rightarrow> (Inl e, w3)
                      | (Inr u, w3) \<Rightarrow> (Inr lmkPtr, w3))))"

text \<open>
  initSlam (lines 182 to 218): a new map, then one robot and two sensors, each created
  only if \<open>unusedStates\<close> finds room for it. The poses written after each creation are
  numeric state and are left out.
\<close>

definition guardedSensor :: "sizes \<Rightarrow> ref \<Rightarrow> ref \<Rightarrow> string \<Rightarrow> bool \<Rightarrow> world \<Rightarrow> unit result" where
  "guardedSensor sz slamMapPtr robPtr name isInMap w =
     (case deref (maps w) slamMapPtr of
        None \<Rightarrow> (Inl NullPointer, w)
      | Some m \<Rightarrow>
          if unusedStates m (size_senPH sz)
          then (case newSensor sz robPtr name isInMap w of
                  (Inl e, w') \<Rightarrow> (Inl e, w')
                | (Inr senPtr, w') \<Rightarrow> (Inr (), w'))
          else (Inr (), w))"

definition newMap :: "nat \<Rightarrow> world \<Rightarrow> ref result" where
  "newMap size_map w = (Inr (length (maps w)), w\<lparr>maps := maps w @ [new_MapAbstract size_map]\<rparr>)"

definition initSlam :: "sizes \<Rightarrow> nat \<Rightarrow> world \<Rightarrow> ref result" where
  "initSlam sz size_map w =
     (case newMap size_map w of
        (Inl e, w0) \<Rightarrow> (Inl e, w0)
      | (Inr slamMapPtr, w0) \<Rightarrow>
     (case deref (maps w0) slamMapPtr of
        None \<Rightarrow> (Inl NullPointer, w0)
      | Some m \<Rightarrow>
          if unusedStates m (size_robCV sz)
          then (case newRobot sz slamMapPtr ''SUBMARINE'' w0 of
                  (Inl e, w1) \<Rightarrow> (Inl e, w1)
                | (Inr robPtr, w1) \<Rightarrow>
                    (case guardedSensor sz slamMapPtr robPtr ''FLEA'' False w1 of
                       (Inl e, w2) \<Rightarrow> (Inl e, w2)
                     | (Inr u, w2) \<Rightarrow>
                         (case guardedSensor sz slamMapPtr robPtr ''MARLIN'' True w2 of
                            (Inl e, w3) \<Rightarrow> (Inl e, w3)
                          | (Inr u', w3) \<Rightarrow> (Inr slamMapPtr, w3))))
          else (Inr slamMapPtr, w0)))"

text \<open>
  A sequence of entity creations: each command is one call of the functions above, and
  a run executes them in order, keeping the world each call leaves (also after an
  error).
\<close>

datatype command =
    InitSlam nat
  | NewMap nat
  | NewRobot ref string
  | NewSensor ref string bool
  | NewLandmark ref
  | NewObservation ref ref

fun exec :: "sizes \<Rightarrow> command \<Rightarrow> world \<Rightarrow> world" where
  "exec sz (InitSlam size_map) w = snd (initSlam sz size_map w)"
| "exec sz (NewMap size_map) w = snd (newMap size_map w)"
| "exec sz (NewRobot slamMapPtr name) w = snd (newRobot sz slamMapPtr name w)"
| "exec sz (NewSensor robPtr name isInMap) w = snd (newSensor sz robPtr name isInMap w)"
| "exec sz (NewLandmark slamMapPtr) w = snd (newLandmark sz slamMapPtr w)"
| "exec sz (NewObservation senPtr lmkPtr) w = snd (newObservation senPtr lmkPtr w)"

definition run :: "sizes \<Rightarrow> command list \<Rightarrow> world \<Rightarrow> world" where
  "run sz cmds w = fold (exec sz) cmds w"

section \<open>The predict step of the filter\<close>

text \<open>
  Modelled from the spec: \<open>ExtendedKalmanFilterIndirect::predict\<close> is missing from the
  sources; test_main01 calls it with the used indices of the map, the robot's Jacobian
  \<open>dx_by_dstate\<close>, the indices of the robot's state and the noise \<open>Q\<close>. The
  covariance is a matrix of reals indexed by state index. Blocks not involving the
  robot's slot are unchanged; the robot's own block is pre- and post-multiplied by the
  Jacobian and picks up the noise; the blocks between the robot's slot and another used
  index are multiplied by the Jacobian only.
\<close>

type_synonym mat = "nat \<Rightarrow> nat \<Rightarrow> real"

fun index_of :: "nat list \<Rightarrow> nat \<Rightarrow> nat" where
  "index_of [] i = 0"
| "index_of (a # as) i = (if a = i then 0 else Suc (index_of as i))"

definition predict :: "mat \<Rightarrow> nat list \<Rightarrow> mat \<Rightarrow> nat list \<Rightarrow> mat \<Rightarrow> mat" where
  "predict P ia_x F ia_v Q =
     (\<lambda>i j.
        let n = length ia_v in
        if i \<in> set ia_v \<and> j \<in> set ia_v then
          (\<Sum>a\<leftarrow>[0..<n]. \<Sum>b\<leftarrow>[0..<n].
              F (index_of ia_v i) a * P (ia_v ! a) (ia_v ! b) * F (index_of ia_v j) b)
          + Q (index_of ia_v i) (index_of ia_v j)
        else if i \<in> set ia_v \<and> j \<in> set ia_x then
          (\<Sum>a\<leftarrow>[0..<n]. F (index_of ia_v i) a * P (ia_v ! a) j)
        else if i \<in> set ia_x \<and> j \<in> set ia_v then
          (\<Sum>b\<leftarrow>[0..<n]. P i (ia_v ! b) * F (index_of ia_v j) b)
        else P i j)"

definition identity_jacobian :: mat where
  "identity_jacobian = (\<lambda>a b. if a = b then 1 else 0)"

definition zero_noise :: mat where
  "zero_noise = (\<lambda>a b. 0)"

section \<open>Predicates used by the properties\<close>

text \<open>
  The loop invariant. As long as no candidate has been taken, \<open>bestSqrLength\<close> is
  -1 and every length seen so far is NaN; afterwards \<open>bestId\<close> is the first index
  whose length no length seen so far exceeds.
\<close>

definition scanInv :: "SegmentHypothesis list \<Rightarrow> nat \<Rightarrow> int \<Rightarrow> double \<Rightarrow> bool" where
  "scanInv segs i bestId bestSqrLength \<longleftrightarrow>
     (if bestId < 0
      then bestSqrLength = Finite (- 1) \<and> (\<forall>k<i. sqrLength (segs ! k) = NaN)
      else nat bestId < i \<and> bestSqrLength = sqrLength (segs ! nat bestId) \<and>
           bestSqrLength \<noteq> NaN \<and>
           (\<forall>k<i. \<not> d_gt (sqrLength (segs ! k)) bestSqrLength) \<and>
           (\<forall>k<nat bestId. d_gt bestSqrLength (sqrLength (segs ! k)) \<or>
                            sqrLength (segs ! k) = NaN))"

text \<open>A double is a length if it is not negative: a finite value from 0 on, or infinity.\<close>

definition is_length :: "double \<Rightarrow> bool" where
  "is_length a \<longleftrightarrow> a = PlusInf \<or> (\<exists>y\<ge>0. a = Finite y)"

text \<open>
  Forward links: whatever an owner's mapping contains is an object of the store whose
  back-reference points to that owner.
\<close>

definition map_links :: "world \<Rightarrow> bool" where
  "map_links w \<longleftrightarrow>
     (\<forall>m<length (maps w).
        (\<forall>(k, r)\<in>set (robots (maps w ! m)).
            r < length (robs w) \<and> rob_slamMap (robs w ! r) = Some m) \<and>
        (\<forall>(k, l)\<in>set (landmarks (maps w ! m)).
            l < length (lmks w) \<and> lmk_slamMap (lmks w ! l) = Some m))"

definition robot_links :: "world \<Rightarrow> bool" where
  "robot_links w \<longleftrightarrow>
     (\<forall>r<length (robs w). \<forall>(k, s)\<in>set (rob_sensors (robs w ! r)).
        s < length (sens w) \<and> sen_robot (sens w ! s) = Some r)"

definition sensor_links :: "world \<Rightarrow> bool" where
  "sensor_links w \<longleftrightarrow>
     (\<forall>s<length (sens w). \<forall>(k, ob)\<in>set (sen_observations (sens w ! s)).
        ob < length (obss w) \<and> obs_sensor (obss w ! ob) = Some s)"

definition landmark_links :: "world \<Rightarrow> bool" where
  "landmark_links w \<longleftrightarrow>
     (\<forall>l<length (lmks w). \<forall>(k, ob)\<in>set (lmk_observations (lmks w ! l)).
        ob < length (obss w) \<and> obs_landmark (obss w ! ob) = Some l)"

definition linked :: "world \<Rightarrow> bool" where
  "linked w \<longleftrightarrow> map_links w \<and> robot_links w \<and> sensor_links w \<and> landmark_links w"

text \<open>
  The part of newLandmark before its loops (lines 160 to 167), with the pointer of the
  new landmark and the robots the loops will visit; newLandmark is this followed by the
  loops (lemma \<open>newLandmark_split\<close>).
\<close>

definition landmarkSetup :: "sizes \<Rightarrow> ref \<Rightarrow> world \<Rightarrow> (ref \<times> (nat \<times> ref) list) result" where
  "landmarkSetup sz slamMapPtr w =
     (case deref (maps w) slamMapPtr of
        None \<Rightarrow> (Inl NullPointer, w)
      | Some m \<Rightarrow>
          (let (lid, pool) = getId (landmarkIds m);
               m1 = m\<lparr>landmarkIds := pool\<rparr>;
               w1 = w\<lparr>maps := (maps w)[slamMapPtr := m1]\<rparr>
           in case allocate m1 (size_lmkAHP sz) of
                Inl e \<Rightarrow> (Inl e, w1)
              | Inr (ia, m2) \<Rightarrow>
                  (let lmkPtr = length (lmks w1);
                       lmk = \<lparr>lmk_id = lid, lmk_name = [], lmk_state = ia,
                               lmk_slamMap = Some slamMapPtr, lmk_observations = []\<rparr>;
                       m3 = linkToLandmark lmkPtr lid m2
                   in (Inr (lmkPtr, robots m3),
                       w1\<lparr>maps := (maps w1)[slamMapPtr := m3], lmks := lmks w1 @ [lmk]\<rparr>))))"

text \<open>
  What the fan-out loops leave alone: the maps, the robots, and the identity and
  back-reference of every landmark.
\<close>

definition same_landmarks :: "world \<Rightarrow> world \<Rightarrow> bool" where
  "same_landmarks w w' \<longleftrightarrow>
     maps w' = maps w \<and> robs w' = robs w \<and> length (lmks w') = length (lmks w) \<and>
     length (sens w') = length (sens w) \<and>
     (\<forall>l<length (lmks w). lmk_id (lmks w' ! l) = lmk_id (lmks w ! l) \<and>
                           lmk_slamMap (lmks w' ! l) = lmk_slamMap (lmks w ! l))"

text \<open>Every observation of the store has the id 0.\<close>

definition ids_zero :: "world \<Rightarrow> bool" where
  "ids_zero w \<longleftrightarrow> (\<forall>p<length (obss w). obs_id (obss w ! p) = 0)"

text \<open>
  Example inputs. The sizes are those of a constant-velocity robot (13 states), a
  pin-hole sensor pose (7) and an anchored homogeneous point (7). \<open>world_one_landmark\<close>
  is the world after \<open>initSlam(300)\<close> and one call of newLandmark, as initSomeLmks
  makes it; \<open>world_full_map\<close> holds one map too small for a robot and
  \<open>world_roomy_map\<close> one map with room for it;
  \<open>fillMapSeq_P\<close> is the covariance written by fillMapSeq.
\<close>

definition rtslam_sizes :: sizes where
  "rtslam_sizes = \<lparr>size_robCV = 13, size_senPH = 7, size_lmkAHP = 7\<rparr>"

definition world_one_landmark :: world where
  "world_one_landmark =
     snd (newLandmark rtslam_sizes 0 (snd (initSlam rtslam_sizes 300 empty_world)))"

definition world_full_map :: world where
  "world_full_map = snd (newMap 5 empty_world)"

definition world_roomy_map :: world where
  "world_roomy_map = snd (newMap 300 empty_world)"

definition fillMapSeq_P :: mat where
  "fillMapSeq_P = (\<lambda>i j. real (i + 100 * j))"

section \<open>Properties of the segment feature extractor\<close>

subsection \<open>The order of the doubles and the sign of a squared length\<close>

lemma d_gt_irrefl: "\<not> d_gt a a"
  by (cases a) simp_all

lemma d_gt_trans: "d_gt a b \<Longrightarrow> d_gt b c \<Longrightarrow> d_gt a c"
  by (cases a; cases b; cases c) simp_all

lemma d_gt_total: "a \<noteq> NaN \<Longrightarrow> b \<noteq> NaN \<Longrightarrow> d_gt a b \<or> a = b \<or> d_gt b a"
  by (cases a; cases b) auto

lemma d_gt_not_NaN: "d_gt a b \<Longrightarrow> a \<noteq> NaN \<and> b \<noteq> NaN"
  by (cases a; cases b) simp_all

lemma pow2_pos: "0 < pow2 k"
  by (simp add: pow2_def)

lemma round_half_even_nonneg: "0 \<le> r \<Longrightarrow> 0 \<le> round_half_even r"
  by (auto simp: round_half_even_def Let_def intro: add_nonneg_nonneg)

lemma d_round_nonneg:
  assumes "0 \<le> x"
  shows "d_round x = PlusInf \<or> (\<exists>y\<ge>0. d_round x = Finite y)"
proof (cases "x = 0")
  case True
  then show ?thesis by (simp add: d_round_def)
next
  case False
  with assms have p: "0 < x" by simp
  let ?e = "max (floor_log2 \<bar>x\<bar>) (- 1022)"
  let ?n = "round_half_even (\<bar>x\<bar> / pow2 (?e - 52))"
  from p pow2_pos [of "?e - 52"] have "0 \<le> \<bar>x\<bar> / pow2 (?e - 52)" by simp
  then have "0 \<le> ?n" by (rule round_half_even_nonneg)
  with p pow2_pos [of "?e - 52"] have "0 \<le> sgn x * of_int ?n * pow2 (?e - 52)"
    by simp
  with p False show ?thesis
    by (simp add: d_round_def Let_def)
qed

lemma d_mul_self: "d_mul a a = NaN \<or> is_length (d_mul a a)"
proof (cases a)
  case (Finite r)
  with d_round_nonneg [of "r * r"] show ?thesis by (simp add: is_length_def)
qed (simp_all add: is_length_def)

lemma d_add_lengths:
  assumes "a = NaN \<or> is_length a" "b = NaN \<or> is_length b"
  shows "d_add a b = NaN \<or> is_length (d_add a b)"
proof (cases a)
  case fa: (Finite r)
  show ?thesis
  proof (cases b)
    case (Finite s)
    with fa assms have "0 \<le> r + s" by (auto simp: is_length_def)
    from d_round_nonneg [OF this] fa Finite show ?thesis by (simp add: is_length_def)
  next
    case MinusInf
    with assms show ?thesis by (simp add: is_length_def)
  qed (simp_all add: fa is_length_def)
next
  case PlusInf
  with assms show ?thesis by (cases b) (simp_all add: is_length_def)
next
  case MinusInf
  with assms show ?thesis by (simp add: is_length_def)
qed simp

lemma sqrLength_length: "sqrLength seg = NaN \<or> is_length (sqrLength seg)"
  unfolding sqrLength_def Let_def by (intro d_add_lengths d_mul_self)

lemma sqrLength_eligible: "d_gt (sqrLength seg) (Finite (- 1)) \<longleftrightarrow> sqrLength seg \<noteq> NaN"
  using sqrLength_length [of seg] by (auto simp: is_length_def)

subsection \<open>The scan\<close>

lemma scanInv_step_take:
  assumes "scanInv segs i bestId bestSqrLength" "d_gt (sqrLength (segs ! i)) bestSqrLength"
  shows "scanInv segs (i + 1) (int i) (sqrLength (segs ! i))"
proof -
  let ?s = "sqrLength (segs ! i)"
  from assms(2) have n: "?s \<noteq> NaN" by (simp add: d_gt_not_NaN)
  have a: "\<not> d_gt (sqrLength (segs ! k)) ?s" if "k < i" for k
  proof (cases "bestId < 0")
    case True
    with assms(1) that have "sqrLength (segs ! k) = NaN" by (auto simp: scanInv_def)
    then show ?thesis by simp
  next
    case False
    with assms(1) that have "\<not> d_gt (sqrLength (segs ! k)) bestSqrLength"
      by (auto simp: scanInv_def)
    with assms(2) show ?thesis by (blast intro: d_gt_trans)
  qed
  have b: "d_gt ?s (sqrLength (segs ! k)) \<or> sqrLength (segs ! k) = NaN" if "k < i" for k
  proof (cases "sqrLength (segs ! k) = NaN")
    case False
    from d_gt_total [OF n False] a [OF that] show ?thesis
    proof (elim disjE)
      assume e: "?s = sqrLength (segs ! k)"
      show ?thesis
      proof (cases "bestId < 0")
        case True
        with assms(1) that False show ?thesis by (auto simp: scanInv_def)
      next
        case f: False
        with assms(1) that have "\<not> d_gt (sqrLength (segs ! k)) bestSqrLength"
          by (auto simp: scanInv_def)
        with assms(2) e show ?thesis by simp
      qed
    qed simp_all
  qed simp
  from a have "\<forall>k<i + 1. \<not> d_gt (sqrLength (segs ! k)) ?s"
    by (auto simp: less_Suc_eq d_gt_irrefl)
  with b n show ?thesis by (simp add: scanInv_def)
qed

lemma scanInv_step_keep:
  assumes "scanInv segs i bestId bestSqrLength" "\<not> d_gt (sqrLength (segs ! i)) bestSqrLength"
  shows "scanInv segs (i + 1) bestId bestSqrLength"
proof (cases "bestId < 0")
  case True
  with assms have "sqrLength (segs ! i) = NaN"
    using sqrLength_eligible [of "segs ! i"] by (simp add: scanInv_def)
  with True assms(1) show ?thesis by (auto simp: scanInv_def less_Suc_eq)
next
  case False
  with assms show ?thesis by (auto simp: scanInv_def less_Suc_eq)
qed

lemma scanSegments_inv:
  "scanInv segs i bestId bestSqrLength \<Longrightarrow> i \<le> length segs \<Longrightarrow>
   \<exists>b. scanInv segs (length segs) (scanSegments segs i bestId bestSqrLength) b"
proof (induction segs i bestId bestSqrLength rule: scanSegments.induct)
  case (1 segs i bestId bestSqrLength)
  show ?case
  proof (cases "i < length segs")
    case False
    with "1.prems" have "i = length segs" by simp
    with "1.prems" False show ?thesis
      by (subst scanSegments.simps) auto
  next
    case True
    show ?thesis
    proof (cases "d_gt (sqrLength (segs ! i)) bestSqrLength")
      case t: True
      from "1.IH"(1) [OF True refl t scanInv_step_take [OF "1.prems"(1) t]] True
      show ?thesis by (subst scanSegments.simps) (simp add: t)
    next
      case f: False
      from "1.IH"(2) [OF True refl f scanInv_step_keep [OF "1.prems"(1) f]] True
      show ?thesis by (subst scanSegments.simps) (simp add: f)
    qed
  qed
qed

lemma scanInv_init: "scanInv segs 0 (- 1) (Finite (- 1))"
  by (simp add: scanInv_def)

lemma scanSegments_final:
  "\<exists>b. scanInv segs (length segs) (scanSegments segs 0 (- 1) (Finite (- 1))) b"
  using scanSegments_inv [OF scanInv_init, of segs] by simp

text \<open>
  The loop ends with the first index whose computed length no other exceeds, if some
  computed length is not NaN, and with -1 otherwise.
\<close>

lemma scanSegments_first_longest:
  assumes "\<exists>k<length segs. sqrLength (segs ! k) \<noteq> NaN"
  shows "\<exists>j<length segs. scanSegments segs 0 (- 1) (Finite (- 1)) = int j \<and>
           sqrLength (segs ! j) \<noteq> NaN \<and>
           (\<forall>k<length segs. \<not> d_gt (sqrLength (segs ! k)) (sqrLength (segs ! j))) \<and>
           (\<forall>k<j. d_gt (sqrLength (segs ! j)) (sqrLength (segs ! k)) \<or>
                   sqrLength (segs ! k) = NaN)"
proof -
  let ?r = "scanSegments segs 0 (- 1) (Finite (- 1))"
  from scanSegments_final obtain b where inv: "scanInv segs (length segs) ?r b" by blast
  have "\<not> ?r < 0"
  proof
    assume "?r < 0"
    with inv have "\<forall>k<length segs. sqrLength (segs ! k) = NaN" by (simp add: scanInv_def)
    with assms show False by blast
  qed
  with inv have "nat ?r < length segs" "?r = int (nat ?r)"
    "sqrLength (segs ! nat ?r) \<noteq> NaN"
    "\<forall>k<length segs. \<not> d_gt (sqrLength (segs ! k)) (sqrLength (segs ! nat ?r))"
    "\<forall>k<nat ?r. d_gt (sqrLength (segs ! nat ?r)) (sqrLength (segs ! k)) \<or>
                 sqrLength (segs ! k) = NaN"
    by (auto simp: scanInv_def)
  then show ?thesis by blast
qed

lemma scanSegments_all_NaN:
  assumes "\<forall>k<length segs. sqrLength (segs ! k) = NaN"
  shows "scanSegments segs 0 (- 1) (Finite (- 1)) < 0"
proof (rule ccontr)
  let ?r = "scanSegments segs 0 (- 1) (Finite (- 1))"
  assume n: "\<not> ?r < 0"
  from scanSegments_final obtain b where inv: "scanInv segs (length segs) ?r b" by blast
  with n have "nat ?r < length segs" "sqrLength (segs ! nat ?r) \<noteq> NaN"
    by (auto simp: scanInv_def)
  with assms show False by blast
qed

lemma scanSegments_in_range:
  assumes "0 \<le> scanSegments segs 0 (- 1) (Finite (- 1))"
  shows "nat (scanSegments segs 0 (- 1) (Finite (- 1))) < length segs"
proof -
  from scanSegments_final obtain b
    where "scanInv segs (length segs) (scanSegments segs 0 (- 1) (Finite (- 1))) b" by blast
  with assms show ?thesis by (auto simp: scanInv_def)
qed

lemma example_sqrLengths:
  "sqrLength (example_segments ! 0) = Finite 1"
  "sqrLength (example_segments ! 1) = Finite 100"
  "sqrLength (example_segments ! 2) = Finite 50"
  unfolding example_segments_def by code_simp+

lemma example_detectIn:
  "detectIn (\<lambda>(i::unit) (r::unit). example_segments) () example_feature () =
     (True, \<lparr>measurement = \<lparr>meas_x = [Finite 0, Finite 0, Finite 10, Finite 0],
                              matchScore = Finite 1\<rparr>,
             appearancePtr = Some (AppearanceSegment
               \<lparr>x1 = Finite 0, y1 = Finite 0, x2 = Finite 10, y2 = Finite 0\<rparr>)\<rparr>)"
  unfolding example_segments_def example_feature_def by code_simp

subsection \<open>Selection of the longest candidate\<close>

text \<open>
  Claim C2, as stated, fails. The lengths compared are the computed doubles. For the
  two candidates of \<open>rounding_tie_segments\<close> the exact squared length of the second
  is the greater, by \<open>2^-62\<close>, but both computed lengths are \<open>1 + 2^-30\<close>, and
  detectIn takes the first. For a candidate with a NaN coordinate the computed length
  is NaN, no comparison with it holds, and detectIn returns false on a non-empty
  collection.
\<close>

theorem detectIn_rounding_tie_and_NaN:
  "detectIn (\<lambda>(i::unit) (r::unit). rounding_tie_segments) () example_feature () =
     (True, writeFeature example_feature (rounding_tie_segments ! 0)) \<and>
   meas_x (measurement (snd (detectIn (\<lambda>(i::unit) (r::unit). rounding_tie_segments) ()
       example_feature ()))) = [Finite 0, Finite 0, Finite 1, Finite (1 / 2 ^ 15)] \<and>
   exactSqrLength (rounding_tie_segments ! 0) < exactSqrLength (rounding_tie_segments ! 1) \<and>
   sqrLength (rounding_tie_segments ! 0) = sqrLength (rounding_tie_segments ! 1) \<and>
   nan_segments \<noteq> [] \<and>
   detectIn (\<lambda>(i::unit) (r::unit). nan_segments) () example_feature () = (False, example_feature)"
  unfolding rounding_tie_segments_def nan_segments_def example_feature_def by code_simp

text \<open>
  Claim C2, amended. If the computed squared length of some candidate is not NaN,
  detectIn succeeds and takes a candidate whose computed length is not NaN and is
  exceeded by no candidate's computed length; every candidate before it has a
  computed length that is strictly smaller or NaN, so among the candidates of greatest
  computed length the first is taken. If every computed length is NaN, detectIn returns
  false and leaves the feature as it was. The witness is the spec's example, where the
  segment (0,0,10,0) is taken.
\<close>

theorem detectIn_selects_first_longest:
  assumes "detectSegment img roiPtr = segs"
  shows "((\<exists>k<length segs. sqrLength (segs ! k) \<noteq> NaN) \<longrightarrow>
           (\<exists>j<length segs.
              sqrLength (segs ! j) \<noteq> NaN \<and>
              (\<forall>k<length segs. \<not> d_gt (sqrLength (segs ! k)) (sqrLength (segs ! j))) \<and>
              (\<forall>k<j. d_gt (sqrLength (segs ! j)) (sqrLength (segs ! k)) \<or>
                      sqrLength (segs ! k) = NaN) \<and>
              detectIn detectSegment img featPtr roiPtr =
                (True, writeFeature featPtr (segs ! j)))) \<and>
         ((\<forall>k<length segs. sqrLength (segs ! k) = NaN) \<longrightarrow>
           detectIn detectSegment img featPtr roiPtr = (False, featPtr))"
proof (intro conjI impI)
  assume e: "\<exists>k<length segs. sqrLength (segs ! k) \<noteq> NaN"
  from scanSegments_first_longest [OF e] obtain j where j: "j < length segs"
    "scanSegments segs 0 (- 1) (Finite (- 1)) = int j"
    "sqrLength (segs ! j) \<noteq> NaN"
    "\<forall>k<length segs. \<not> d_gt (sqrLength (segs ! k)) (sqrLength (segs ! j))"
    "\<forall>k<j. d_gt (sqrLength (segs ! j)) (sqrLength (segs ! k)) \<or> sqrLength (segs ! k) = NaN"
    by blast
  have "detectIn detectSegment img featPtr roiPtr = (True, writeFeature featPtr (segs ! j))"
    using assms j(1,2) by (auto simp: detectIn_def Let_def)
  with j show "\<exists>j<length segs.
              sqrLength (segs ! j) \<noteq> NaN \<and>
              (\<forall>k<length segs. \<not> d_gt (sqrLength (segs ! k)) (sqrLength (segs ! j))) \<and>
              (\<forall>k<j. d_gt (sqrLength (segs ! j)) (sqrLength (segs ! k)) \<or>
                      sqrLength (segs ! k) = NaN) \<and>
              detectIn detectSegment img featPtr roiPtr =
                (True, writeFeature featPtr (segs ! j))"
    by blast
next
  assume "\<forall>k<length segs. sqrLength (segs ! k) = NaN"
  from scanSegments_all_NaN [OF this] assms
  show "detectIn detectSegment img featPtr roiPtr = (False, featPtr)"
    by (simp add: detectIn_def Let_def)
qed

theorem detectIn_selects_first_longest_witness:
  "(\<exists>k<length example_segments. sqrLength (example_segments ! k) \<noteq> NaN) \<and>
   (\<exists>j<length example_segments.
      sqrLength (example_segments ! j) \<noteq> NaN \<and>
      (\<forall>k<length example_segments.
          \<not> d_gt (sqrLength (example_segments ! k)) (sqrLength (example_segments ! j))) \<and>
      (\<forall>k<j. d_gt (sqrLength (example_segments ! j)) (sqrLength (example_segments ! k)) \<or>
              sqrLength (example_segments ! k) = NaN) \<and>
      detectIn (\<lambda>(i::unit) (r::unit). example_segments) () example_feature ()
        = (True, writeFeature example_feature (example_segments ! j))) \<and>
   detectIn (\<lambda>(i::unit) (r::unit). example_segments) () example_feature () =
     (True, \<lparr>measurement = \<lparr>meas_x = [Finite 0, Finite 0, Finite 10, Finite 0],
                              matchScore = Finite 1\<rparr>,
             appearancePtr = Some (AppearanceSegment
               \<lparr>x1 = Finite 0, y1 = Finite 0, x2 = Finite 10, y2 = Finite 0\<rparr>)\<rparr>) \<and>
   length nan_segments = 1 \<and> sqrLength (nan_segments ! 0) = NaN \<and>
   detectIn (\<lambda>(i::unit) (r::unit). nan_segments) () example_feature () = (False, example_feature)"
proof -
  have "length example_segments = 3" by (simp add: example_segments_def)
  with example_sqrLengths(1)
  have h: "\<exists>k<length example_segments. sqrLength (example_segments ! k) \<noteq> NaN"
    by (intro exI [of _ 0]) simp
  have n0: "sqrLength (nan_segments ! 0) = NaN"
    unfolding nan_segments_def by code_simp
  have n1: "length nan_segments = 1" by (simp add: nan_segments_def)
  from n0 n1 have n: "\<forall>k<length nan_segments. sqrLength (nan_segments ! k) = NaN"
    by simp
  from detectIn_selects_first_longest
    [of "\<lambda>(i::unit) (r::unit). example_segments" "()" "()" example_segments example_feature,
      OF refl]
    detectIn_selects_first_longest
    [of "\<lambda>(i::unit) (r::unit). nan_segments" "()" "()" nan_segments example_feature,
      OF refl]
    h n n0 n1 example_detectIn
  show ?thesis by blast
qed

subsection \<open>Empty result, written feature, region of interest\<close>

text \<open>
  Claim C6. When the detection routine returns no candidate, detectIn returns false and
  leaves the feature as it was; the empty result is an ordinary return value.
\<close>

theorem detectIn_empty_none:
  "detectSegment img roiPtr = [] \<Longrightarrow> detectIn detectSegment img featPtr roiPtr = (False, featPtr)"
  by (simp add: detectIn_def)

theorem detectIn_empty_none_witness:
  "(\<lambda>(i::unit) (r::unit). ([]::SegmentHypothesis list)) () () = [] \<and>
   detectIn (\<lambda>(i::unit) (r::unit). []) () example_feature () = (False, example_feature)"
  using detectIn_empty_none [of "\<lambda>(i::unit) (r::unit). []" "()" "()" example_feature]
  by simp

lemma writeFeature_components:
  assumes "4 \<le> length (meas_x (measurement featPtr))"
  shows "take 4 (meas_x (measurement (writeFeature featPtr s))) = [x1 s, y1 s, x2 s, y2 s]"
    and "drop 4 (meas_x (measurement (writeFeature featPtr s))) = drop 4 (meas_x (measurement featPtr))"
    and "matchScore (measurement (writeFeature featPtr s)) = Finite 1"
    and "appearancePtr (writeFeature featPtr s) = Some (AppearanceSegment s)"
proof -
  from assms obtain a b c d rest where x: "meas_x (measurement featPtr) = a # b # c # d # rest"
    by (auto simp: numeral_eq_Suc Suc_le_length_iff)
  show "take 4 (meas_x (measurement (writeFeature featPtr s))) = [x1 s, y1 s, x2 s, y2 s]"
    "drop 4 (meas_x (measurement (writeFeature featPtr s))) = drop 4 (meas_x (measurement featPtr))"
    "matchScore (measurement (writeFeature featPtr s)) = Finite 1"
    "appearancePtr (writeFeature featPtr s) = Some (AppearanceSegment s)"
    by (simp_all add: writeFeature_def Let_def x numeral_eq_Suc)
qed

text \<open>
  Claim C7. When detectIn returns true, the first four components of the feature's
  measurement are the endpoints (x1, y1, x2, y2) of the winning segment, the match score
  is 1, and the appearance is a snapshot of the winning segment.
\<close>

theorem detectIn_success_writes:
  assumes "detectIn detectSegment img featPtr roiPtr = (True, feat')"
    and "4 \<le> length (meas_x (measurement featPtr))"
  shows "\<exists>j<length (detectSegment img roiPtr).
           scanSegments (detectSegment img roiPtr) 0 (- 1) (Finite (- 1)) = int j \<and>
           take 4 (meas_x (measurement feat')) =
             [x1 (detectSegment img roiPtr ! j), y1 (detectSegment img roiPtr ! j),
              x2 (detectSegment img roiPtr ! j), y2 (detectSegment img roiPtr ! j)] \<and>
           drop 4 (meas_x (measurement feat')) = drop 4 (meas_x (measurement featPtr)) \<and>
           matchScore (measurement feat') = Finite 1 \<and>
           appearancePtr feat' = Some (AppearanceSegment (detectSegment img roiPtr ! j))"
proof -
  let ?segs = "detectSegment img roiPtr"
  let ?r = "scanSegments ?segs 0 (- 1) (Finite (- 1))"
  from assms(1) have r: "0 \<le> ?r" and f: "feat' = writeFeature featPtr (?segs ! nat ?r)"
    by (auto simp: detectIn_def Let_def split: if_splits)
  from scanSegments_in_range [OF r] have j: "nat ?r < length ?segs" .
  from r have e: "?r = int (nat ?r)" by simp
  from j e f writeFeature_components [OF assms(2), of "?segs ! nat ?r"] show ?thesis
    by blast
qed

theorem detectIn_success_writes_witness:
  "detectIn (\<lambda>(i::unit) (r::unit). example_segments) () example_feature () =
     (True, \<lparr>measurement = \<lparr>meas_x = [Finite 0, Finite 0, Finite 10, Finite 0],
                              matchScore = Finite 1\<rparr>,
             appearancePtr = Some (AppearanceSegment
               \<lparr>x1 = Finite 0, y1 = Finite 0, x2 = Finite 10, y2 = Finite 0\<rparr>)\<rparr>) \<and>
   4 \<le> length (meas_x (measurement example_feature)) \<and>
   (\<exists>j<length example_segments.
      scanSegments example_segments 0 (- 1) (Finite (- 1)) = int j \<and>
      take 4 [Finite 0, Finite 0, Finite 10, Finite 0] =
        [x1 (example_segments ! j), y1 (example_segments ! j),
         x2 (example_segments ! j), y2 (example_segments ! j)])"
proof -
  note e = example_detectIn
  have l: "4 \<le> length (meas_x (measurement example_feature))"
    by (simp add: example_feature_def)
  from detectIn_success_writes [OF e l] e l show ?thesis
    by simp blast
qed

text \<open>
  Claim C8. The region of interest reaches the result only through the detection
  routine: for two regions on which the routine returns the same candidates, detectIn
  returns the same boolean and the same feature.
\<close>

theorem detectIn_ignores_roi:
  "detectSegment img roi1 = detectSegment img roi2 \<Longrightarrow>
   detectIn detectSegment img featPtr roi1 = detectIn detectSegment img featPtr roi2"
  by (simp add: detectIn_def)

theorem detectIn_ignores_roi_witness:
  "(\<lambda>(i::unit) (r::bool). example_segments) () True = (\<lambda>(i::unit) (r::bool). example_segments) () False \<and>
   detectIn (\<lambda>(i::unit) (r::bool). example_segments) () example_feature True =
   detectIn (\<lambda>(i::unit) (r::bool). example_segments) () example_feature False"
  using detectIn_ignores_roi [of "\<lambda>(i::unit) (r::bool). example_segments" "()" True False example_feature]
  by simp


section \<open>Properties of the entity graph\<close>

subsection \<open>Ordered maps and pointers\<close>



lemma map_put_mem: "(k, v) \<in> set (map_put k v xs)"
  by (induction xs) auto

lemma map_put_cases: "p \<in> set (map_put k v xs) \<Longrightarrow> p = (k, v) \<or> p \<in> set xs"
  by (induction xs) (auto split: if_splits)

lemma deref_Some: "deref store p = Some a \<longleftrightarrow> p < length store \<and> a = store ! p"
  by (auto simp: deref_def)

lemma deref_None: "deref store p = None \<longleftrightarrow> \<not> p < length store"
  by (auto simp: deref_def)

subsection \<open>Link preservation, operation by operation\<close>

text \<open>What newObservation changes and what it leaves alone.\<close>

lemma newObservation_frame:
  "maps (snd (newObservation senPtr lmkPtr w)) = maps w"
  "robs (snd (newObservation senPtr lmkPtr w)) = robs w"
  "obss (snd (newObservation senPtr lmkPtr w)) =
     obss w @ [\<lparr>obs_id = 0, obs_sensor = Some senPtr, obs_landmark = Some lmkPtr\<rparr>]"
  "length (sens (snd (newObservation senPtr lmkPtr w))) = length (sens w)"
  "length (lmks (snd (newObservation senPtr lmkPtr w))) = length (lmks w)"
  by (simp_all add: newObservation_def Let_def split: option.splits)

lemma newObservation_sens:
  assumes "s < length (sens w)"
  shows "sen_robot (sens (snd (newObservation senPtr lmkPtr w)) ! s) = sen_robot (sens w ! s)"
    and "p \<in> set (sen_observations (sens (snd (newObservation senPtr lmkPtr w)) ! s)) \<Longrightarrow>
         (s = senPtr \<and> p = (0, length (obss w))) \<or> p \<in> set (sen_observations (sens w ! s))"
  using assms
  by (auto simp: newObservation_def Let_def deref_Some sen_linkToObservation_def nth_list_update
      split: option.splits if_splits dest: map_put_cases)


lemma newObservation_lmks:
  assumes "l < length (lmks w)"
  shows "lmk_slamMap (lmks (snd (newObservation senPtr lmkPtr w)) ! l) = lmk_slamMap (lmks w ! l)"
    and "p \<in> set (lmk_observations (lmks (snd (newObservation senPtr lmkPtr w)) ! l)) \<Longrightarrow>
         (l = lmkPtr \<and> p = (0, length (obss w))) \<or> p \<in> set (lmk_observations (lmks w ! l))"
  using assms
  by (auto simp: newObservation_def Let_def deref_Some lmk_linkToObservation_def nth_list_update
      split: option.splits if_splits dest: map_put_cases)


lemma map_linksD_rob:
  "map_links w \<Longrightarrow> m < length (maps w) \<Longrightarrow> (k, r) \<in> set (robots (maps w ! m)) \<Longrightarrow>
   r < length (robs w) \<and> rob_slamMap (robs w ! r) = Some m"
  unfolding map_links_def by blast

lemma map_linksD_lmk:
  "map_links w \<Longrightarrow> m < length (maps w) \<Longrightarrow> (k, l) \<in> set (landmarks (maps w ! m)) \<Longrightarrow>
   l < length (lmks w) \<and> lmk_slamMap (lmks w ! l) = Some m"
  unfolding map_links_def by blast

lemma map_linksI:
  assumes "\<And>m k r. m < length (maps w) \<Longrightarrow> (k, r) \<in> set (robots (maps w ! m)) \<Longrightarrow>
             r < length (robs w) \<and> rob_slamMap (robs w ! r) = Some m"
    and "\<And>m k l. m < length (maps w) \<Longrightarrow> (k, l) \<in> set (landmarks (maps w ! m)) \<Longrightarrow>
             l < length (lmks w) \<and> lmk_slamMap (lmks w ! l) = Some m"
  shows "map_links w"
  unfolding map_links_def using assms by blast

lemma robot_linksD:
  "robot_links w \<Longrightarrow> r < length (robs w) \<Longrightarrow> (k, s) \<in> set (rob_sensors (robs w ! r)) \<Longrightarrow>
   s < length (sens w) \<and> sen_robot (sens w ! s) = Some r"
  unfolding robot_links_def by blast

lemma robot_linksI:
  assumes "\<And>r k s. r < length (robs w) \<Longrightarrow> (k, s) \<in> set (rob_sensors (robs w ! r)) \<Longrightarrow>
             s < length (sens w) \<and> sen_robot (sens w ! s) = Some r"
  shows "robot_links w"
  unfolding robot_links_def using assms by blast

lemma sensor_linksD:
  "sensor_links w \<Longrightarrow> s < length (sens w) \<Longrightarrow> (k, ob) \<in> set (sen_observations (sens w ! s)) \<Longrightarrow>
   ob < length (obss w) \<and> obs_sensor (obss w ! ob) = Some s"
  unfolding sensor_links_def by blast

lemma sensor_linksI:
  assumes "\<And>s k ob. s < length (sens w) \<Longrightarrow> (k, ob) \<in> set (sen_observations (sens w ! s)) \<Longrightarrow>
             ob < length (obss w) \<and> obs_sensor (obss w ! ob) = Some s"
  shows "sensor_links w"
  unfolding sensor_links_def using assms by blast

lemma landmark_linksD:
  "landmark_links w \<Longrightarrow> l < length (lmks w) \<Longrightarrow> (k, ob) \<in> set (lmk_observations (lmks w ! l)) \<Longrightarrow>
   ob < length (obss w) \<and> obs_landmark (obss w ! ob) = Some l"
  unfolding landmark_links_def by blast

lemma landmark_linksI:
  assumes "\<And>l k ob. l < length (lmks w) \<Longrightarrow> (k, ob) \<in> set (lmk_observations (lmks w ! l)) \<Longrightarrow>
             ob < length (obss w) \<and> obs_landmark (obss w ! ob) = Some l"
  shows "landmark_links w"
  unfolding landmark_links_def using assms by blast

lemma newObservation_linked:
  assumes "linked w"
  shows "linked (snd (newObservation senPtr lmkPtr w))"
proof -
  let ?w = "snd (newObservation senPtr lmkPtr w)"
  note fr = newObservation_frame [of senPtr lmkPtr w]
  from assms have a: "map_links w" "robot_links w" "sensor_links w" "landmark_links w"
    by (simp_all add: linked_def)
  have "map_links ?w"
  proof (rule map_linksI)
    fix m k r assume "m < length (maps ?w)" "(k, r) \<in> set (robots (maps ?w ! m))"
    then show "r < length (robs ?w) \<and> rob_slamMap (robs ?w ! r) = Some m"
      using map_linksD_rob [OF a(1), of m k r] by (simp add: fr)
  next
    fix m k l assume "m < length (maps ?w)" "(k, l) \<in> set (landmarks (maps ?w ! m))"
    then have "l < length (lmks w) \<and> lmk_slamMap (lmks w ! l) = Some m"
      using map_linksD_lmk [OF a(1), of m k l] by (simp add: fr)
    then show "l < length (lmks ?w) \<and> lmk_slamMap (lmks ?w ! l) = Some m"
      by (simp add: fr newObservation_lmks(1))
  qed
  moreover have "robot_links ?w"
  proof (rule robot_linksI)
    fix r k s assume "r < length (robs ?w)" "(k, s) \<in> set (rob_sensors (robs ?w ! r))"
    then have "s < length (sens w) \<and> sen_robot (sens w ! s) = Some r"
      using robot_linksD [OF a(2), of r k s] by (simp add: fr)
    then show "s < length (sens ?w) \<and> sen_robot (sens ?w ! s) = Some r"
      by (simp add: fr newObservation_sens(1))
  qed
  moreover have "sensor_links ?w"
  proof (rule sensor_linksI)
    fix s k ob
    assume s: "s < length (sens ?w)" and p: "(k, ob) \<in> set (sen_observations (sens ?w ! s))"
    from s have s': "s < length (sens w)" by (simp add: fr)
    from newObservation_sens(2) [OF s' p]
    show "ob < length (obss ?w) \<and> obs_sensor (obss ?w ! ob) = Some s"
    proof
      assume "s = senPtr \<and> (k, ob) = (0, length (obss w))"
      then show ?thesis by (simp add: fr)
    next
      assume "(k, ob) \<in> set (sen_observations (sens w ! s))"
      from sensor_linksD [OF a(3) s' this]
      show ?thesis by (simp add: fr nth_append)
    qed
  qed
  moreover have "landmark_links ?w"
  proof (rule landmark_linksI)
    fix l k ob
    assume l: "l < length (lmks ?w)" and p: "(k, ob) \<in> set (lmk_observations (lmks ?w ! l))"
    from l have l': "l < length (lmks w)" by (simp add: fr)
    from newObservation_lmks(2) [OF l' p]
    show "ob < length (obss ?w) \<and> obs_landmark (obss ?w ! ob) = Some l"
    proof
      assume "l = lmkPtr \<and> (k, ob) = (0, length (obss w))"
      then show ?thesis by (simp add: fr)
    next
      assume "(k, ob) \<in> set (lmk_observations (lmks w ! l))"
      from landmark_linksD [OF a(4) l' this]
      show ?thesis by (simp add: fr nth_append)
    qed
  qed
  ultimately show ?thesis by (simp add: linked_def)
qed



text \<open>The same for newRobot.\<close>

lemma newRobot_frame:
  "sens (snd (newRobot sz slamMapPtr name w)) = sens w"
  "lmks (snd (newRobot sz slamMapPtr name w)) = lmks w"
  "obss (snd (newRobot sz slamMapPtr name w)) = obss w"
  "length (maps (snd (newRobot sz slamMapPtr name w))) = length (maps w)"
  by (simp_all add: newRobot_def Let_def split: option.splits prod.splits sum.splits)

lemma newRobot_robs:
  "(robs (snd (newRobot sz slamMapPtr name w)) = robs w \<and>
      (\<exists>e. fst (newRobot sz slamMapPtr name w) = Inl e)) \<or>
   (\<exists>rob. robs (snd (newRobot sz slamMapPtr name w)) = robs w @ [rob] \<and>
      rob_sensors rob = [] \<and> rob_slamMap rob = Some slamMapPtr \<and>
      fst (newRobot sz slamMapPtr name w) = Inr (length (robs w)))"
  by (simp add: newRobot_def Let_def split: option.splits prod.splits sum.splits)

lemma newRobot_maps:
  assumes "m < length (maps w)"
  shows "landmarks (maps (snd (newRobot sz slamMapPtr name w)) ! m) = landmarks (maps w ! m)"
    and "p \<in> set (robots (maps (snd (newRobot sz slamMapPtr name w)) ! m)) \<Longrightarrow>
         p \<in> set (robots (maps w ! m)) \<or>
         (m = slamMapPtr \<and> snd p = length (robs w) \<and>
          fst (newRobot sz slamMapPtr name w) = Inr (length (robs w)))"
  using assms
  by (auto simp: newRobot_def Let_def deref_def allocate_def linkToRobot_def nth_list_update
      split: option.splits prod.splits sum.splits if_splits dest: map_put_cases)

lemma newRobot_linked:
  assumes "linked w"
  shows "linked (snd (newRobot sz slamMapPtr name w))"
proof -
  let ?w = "snd (newRobot sz slamMapPtr name w)"
  note fr = newRobot_frame [of sz slamMapPtr name w]
  from assms have a: "map_links w" "robot_links w" "sensor_links w" "landmark_links w"
    by (simp_all add: linked_def)
  have "map_links ?w"
  proof (rule map_linksI)
    fix m k r assume m: "m < length (maps ?w)" and p: "(k, r) \<in> set (robots (maps ?w ! m))"
    from m have m': "m < length (maps w)" by (simp add: fr)
    from newRobot_maps(2) [OF m' p]
    show "r < length (robs ?w) \<and> rob_slamMap (robs ?w ! r) = Some m"
    proof
      assume "(k, r) \<in> set (robots (maps w ! m))"
      from map_linksD_rob [OF a(1) m' this] newRobot_robs [of sz slamMapPtr name w]
      show ?thesis by (auto simp: nth_append)
    next
      assume "m = slamMapPtr \<and> snd (k, r) = length (robs w) \<and>
          fst (newRobot sz slamMapPtr name w) = Inr (length (robs w))"
      with newRobot_robs [of sz slamMapPtr name w]
      show ?thesis by auto
    qed
  next
    fix m k l assume m: "m < length (maps ?w)" and p: "(k, l) \<in> set (landmarks (maps ?w ! m))"
    from m have m': "m < length (maps w)" by (simp add: fr)
    from p have "(k, l) \<in> set (landmarks (maps w ! m))"
      by (simp add: newRobot_maps(1) [OF m'])
    from map_linksD_lmk [OF a(1) m' this]
    show "l < length (lmks ?w) \<and> lmk_slamMap (lmks ?w ! l) = Some m"
      by (simp add: fr)
  qed
  moreover have "robot_links ?w"
  proof (rule robot_linksI)
    fix r k s assume r: "r < length (robs ?w)" and p: "(k, s) \<in> set (rob_sensors (robs ?w ! r))"
    from newRobot_robs [of sz slamMapPtr name w] r p
    have "r < length (robs w) \<and> (k, s) \<in> set (rob_sensors (robs w ! r))"
      by (auto simp: nth_append less_Suc_eq split: if_splits)
    with robot_linksD [OF a(2), of r k s]
    show "s < length (sens ?w) \<and> sen_robot (sens ?w ! s) = Some r"
      by (simp add: fr)
  qed
  moreover have "sensor_links ?w"
    using a(3) by (simp add: sensor_links_def fr)
  moreover have "landmark_links ?w"
    using a(4) by (simp add: landmark_links_def fr)
  ultimately show ?thesis by (simp add: linked_def)
qed



text \<open>The same for newSensor.\<close>

lemma newSensor_frame:
  "lmks (snd (newSensor sz robPtr name isInMap w)) = lmks w"
  "obss (snd (newSensor sz robPtr name isInMap w)) = obss w"
  "length (maps (snd (newSensor sz robPtr name isInMap w))) = length (maps w)"
  "length (robs (snd (newSensor sz robPtr name isInMap w))) = length (robs w)"
  by (simp_all add: newSensor_def Let_def split: option.splits prod.splits sum.splits)

lemma newSensor_sens:
  "(sens (snd (newSensor sz robPtr name isInMap w)) = sens w \<and>
      (\<exists>e. fst (newSensor sz robPtr name isInMap w) = Inl e)) \<or>
   (\<exists>sen. sens (snd (newSensor sz robPtr name isInMap w)) = sens w @ [sen] \<and>
      sen_observations sen = [] \<and> sen_robot sen = Some robPtr \<and>
      fst (newSensor sz robPtr name isInMap w) = Inr (length (sens w)))"
  by (simp add: newSensor_def Let_def split: option.splits prod.splits sum.splits)

lemma newSensor_maps:
  assumes "m < length (maps w)"
  shows "landmarks (maps (snd (newSensor sz robPtr name isInMap w)) ! m) = landmarks (maps w ! m)"
    and "robots (maps (snd (newSensor sz robPtr name isInMap w)) ! m) = robots (maps w ! m)"
  using assms
  by (auto simp: newSensor_def Let_def deref_def allocate_def nth_list_update
      split: option.splits prod.splits sum.splits if_splits)

lemma newSensor_robs:
  assumes "r < length (robs w)"
  shows "rob_slamMap (robs (snd (newSensor sz robPtr name isInMap w)) ! r) = rob_slamMap (robs w ! r)"
    and "p \<in> set (rob_sensors (robs (snd (newSensor sz robPtr name isInMap w)) ! r)) \<Longrightarrow>
         p \<in> set (rob_sensors (robs w ! r)) \<or>
         (r = robPtr \<and> snd p = length (sens w) \<and>
          fst (newSensor sz robPtr name isInMap w) = Inr (length (sens w)))"
  using assms
  by (auto simp: newSensor_def Let_def deref_def allocate_def linkToSensor_def nth_list_update
      split: option.splits prod.splits sum.splits if_splits dest: map_put_cases)

lemma newSensor_linked:
  assumes "linked w"
  shows "linked (snd (newSensor sz robPtr name isInMap w))"
proof -
  let ?w = "snd (newSensor sz robPtr name isInMap w)"
  note fr = newSensor_frame [of sz robPtr name isInMap w]
  from assms have a: "map_links w" "robot_links w" "sensor_links w" "landmark_links w"
    by (simp_all add: linked_def)
  have "map_links ?w"
  proof (rule map_linksI)
    fix m k r assume m: "m < length (maps ?w)" and p: "(k, r) \<in> set (robots (maps ?w ! m))"
    from m have m': "m < length (maps w)" by (simp add: fr)
    from p have "(k, r) \<in> set (robots (maps w ! m))"
      by (simp add: newSensor_maps(2) [OF m'])
    from map_linksD_rob [OF a(1) m' this]
    show "r < length (robs ?w) \<and> rob_slamMap (robs ?w ! r) = Some m"
      by (simp add: fr newSensor_robs(1))
  next
    fix m k l assume m: "m < length (maps ?w)" and p: "(k, l) \<in> set (landmarks (maps ?w ! m))"
    from m have m': "m < length (maps w)" by (simp add: fr)
    from p have "(k, l) \<in> set (landmarks (maps w ! m))"
      by (simp add: newSensor_maps(1) [OF m'])
    from map_linksD_lmk [OF a(1) m' this]
    show "l < length (lmks ?w) \<and> lmk_slamMap (lmks ?w ! l) = Some m"
      by (simp add: fr)
  qed
  moreover have "robot_links ?w"
  proof (rule robot_linksI)
    fix r k s assume r: "r < length (robs ?w)" and p: "(k, s) \<in> set (rob_sensors (robs ?w ! r))"
    from r have r': "r < length (robs w)" by (simp add: fr)
    from newSensor_robs(2) [OF r' p]
    show "s < length (sens ?w) \<and> sen_robot (sens ?w ! s) = Some r"
    proof
      assume "(k, s) \<in> set (rob_sensors (robs w ! r))"
      from robot_linksD [OF a(2) r' this] newSensor_sens [of sz robPtr name isInMap w]
      show ?thesis by (auto simp: nth_append)
    next
      assume "r = robPtr \<and> snd (k, s) = length (sens w) \<and>
          fst (newSensor sz robPtr name isInMap w) = Inr (length (sens w))"
      with newSensor_sens [of sz robPtr name isInMap w]
      show ?thesis by auto
    qed
  qed
  moreover have "sensor_links ?w"
  proof (rule sensor_linksI)
    fix s k ob
    assume s: "s < length (sens ?w)" and p: "(k, ob) \<in> set (sen_observations (sens ?w ! s))"
    from newSensor_sens [of sz robPtr name isInMap w] s p
    have "s < length (sens w) \<and> (k, ob) \<in> set (sen_observations (sens w ! s))"
      by (auto simp: nth_append less_Suc_eq split: if_splits)
    with sensor_linksD [OF a(3), of s k ob]
    show "ob < length (obss ?w) \<and> obs_sensor (obss ?w ! ob) = Some s"
      by (simp add: fr)
  qed
  moreover have "landmark_links ?w"
    using a(4) by (simp add: landmark_links_def fr)
  ultimately show ?thesis by (simp add: linked_def)
qed

text \<open>A new map has no robot and no landmark.\<close>

lemma newMap_linked:
  assumes "linked w"
  shows "linked (snd (newMap size_map w))"
proof -
  have "map_links (snd (newMap size_map w))"
    using assms
    by (auto simp: linked_def map_links_def newMap_def new_MapAbstract_def nth_append less_Suc_eq)
  with assms show ?thesis
    by (simp add: linked_def robot_links_def sensor_links_def landmark_links_def newMap_def)
qed

text \<open>The fan-out loops of newLandmark, by induction on what is left to visit.\<close>

lemma observeSensors_linked:
  "linked w \<Longrightarrow> linked (snd (observeSensors ss lmkPtr w))"
proof (induction ss arbitrary: w)
  case Nil
  then show ?case by simp
next
  case (Cons a ss)
  obtain sid senPtr where a: "a = (sid, senPtr)" by (cases a)
  obtain r w' where r: "newObservation senPtr lmkPtr w = (r, w')"
    by (cases "newObservation senPtr lmkPtr w")
  from newObservation_linked [OF Cons.prems, of senPtr lmkPtr] r have l: "linked w'" by simp
  show ?case
  proof (cases r)
    case (Inl e)
    with a r l show ?thesis by simp
  next
    case (Inr obsPtr)
    with a r Cons.IH [OF l] show ?thesis by simp
  qed
qed

lemma observeRobots_linked:
  "linked w \<Longrightarrow> linked (snd (observeRobots rs lmkPtr w))"
proof (induction rs arbitrary: w)
  case Nil
  then show ?case by simp
next
  case (Cons a rs)
  obtain rid robPtr where a: "a = (rid, robPtr)" by (cases a)
  show ?case
  proof (cases "deref (robs w) robPtr")
    case None
    with a Cons.prems show ?thesis by simp
  next
    case (Some rob)
    obtain r w' where r: "observeSensors (rob_sensors rob) lmkPtr w = (r, w')"
      by (cases "observeSensors (rob_sensors rob) lmkPtr w")
    from observeSensors_linked [OF Cons.prems, of "rob_sensors rob" lmkPtr] r
    have l: "linked w'" by simp
    show ?thesis
    proof (cases r)
      case (Inl e)
      with a r l Some show ?thesis by simp
    next
      case (Inr u)
      with a r Some Cons.IH [OF l] show ?thesis by simp
    qed
  qed
qed



lemma newLandmark_split:
  "newLandmark sz slamMapPtr w =
     (case landmarkSetup sz slamMapPtr w of
        (Inl e, w1) \<Rightarrow> (Inl e, w1)
      | (Inr (lmkPtr, rs), w2) \<Rightarrow>
          (case observeRobots rs lmkPtr w2 of
             (Inl e, w3) \<Rightarrow> (Inl e, w3)
           | (Inr u, w3) \<Rightarrow> (Inr lmkPtr, w3)))"
  by (simp add: newLandmark_def landmarkSetup_def Let_def
      split: option.splits prod.splits sum.splits)

lemma landmarkSetup_frame:
  "robs (snd (landmarkSetup sz slamMapPtr w)) = robs w"
  "sens (snd (landmarkSetup sz slamMapPtr w)) = sens w"
  "obss (snd (landmarkSetup sz slamMapPtr w)) = obss w"
  "length (maps (snd (landmarkSetup sz slamMapPtr w))) = length (maps w)"
  by (simp_all add: landmarkSetup_def Let_def split: option.splits prod.splits sum.splits)

lemma landmarkSetup_lmks:
  "(lmks (snd (landmarkSetup sz slamMapPtr w)) = lmks w \<and>
      (\<exists>e. fst (landmarkSetup sz slamMapPtr w) = Inl e)) \<or>
   (\<exists>lmk rs. lmks (snd (landmarkSetup sz slamMapPtr w)) = lmks w @ [lmk] \<and>
      lmk_observations lmk = [] \<and> lmk_slamMap lmk = Some slamMapPtr \<and>
      fst (landmarkSetup sz slamMapPtr w) = Inr (length (lmks w), rs))"
  by (simp add: landmarkSetup_def Let_def split: option.splits prod.splits sum.splits)

lemma landmarkSetup_maps:
  assumes "m < length (maps w)"
  shows "robots (maps (snd (landmarkSetup sz slamMapPtr w)) ! m) = robots (maps w ! m)"
    and "p \<in> set (landmarks (maps (snd (landmarkSetup sz slamMapPtr w)) ! m)) \<Longrightarrow>
         p \<in> set (landmarks (maps w ! m)) \<or>
         (m = slamMapPtr \<and> snd p = length (lmks w) \<and>
          (\<exists>rs. fst (landmarkSetup sz slamMapPtr w) = Inr (length (lmks w), rs)))"
  using assms
  by (auto simp: landmarkSetup_def Let_def deref_def allocate_def linkToLandmark_def nth_list_update
      split: option.splits prod.splits sum.splits if_splits dest: map_put_cases)

lemma landmarkSetup_linked:
  assumes "linked w"
  shows "linked (snd (landmarkSetup sz slamMapPtr w))"
proof -
  let ?w = "snd (landmarkSetup sz slamMapPtr w)"
  note fr = landmarkSetup_frame [of sz slamMapPtr w]
  from assms have a: "map_links w" "robot_links w" "sensor_links w" "landmark_links w"
    by (simp_all add: linked_def)
  have "map_links ?w"
  proof (rule map_linksI)
    fix m k r assume m: "m < length (maps ?w)" and p: "(k, r) \<in> set (robots (maps ?w ! m))"
    from m have m': "m < length (maps w)" by (simp add: fr)
    from p have "(k, r) \<in> set (robots (maps w ! m))"
      by (simp add: landmarkSetup_maps(1) [OF m'])
    from map_linksD_rob [OF a(1) m' this]
    show "r < length (robs ?w) \<and> rob_slamMap (robs ?w ! r) = Some m"
      by (simp add: fr)
  next
    fix m k l assume m: "m < length (maps ?w)" and p: "(k, l) \<in> set (landmarks (maps ?w ! m))"
    from m have m': "m < length (maps w)" by (simp add: fr)
    from landmarkSetup_maps(2) [OF m' p]
    show "l < length (lmks ?w) \<and> lmk_slamMap (lmks ?w ! l) = Some m"
    proof
      assume "(k, l) \<in> set (landmarks (maps w ! m))"
      from map_linksD_lmk [OF a(1) m' this] landmarkSetup_lmks [of sz slamMapPtr w]
      show ?thesis by (auto simp: nth_append)
    next
      assume "m = slamMapPtr \<and> snd (k, l) = length (lmks w) \<and>
          (\<exists>rs. fst (landmarkSetup sz slamMapPtr w) = Inr (length (lmks w), rs))"
      with landmarkSetup_lmks [of sz slamMapPtr w]
      show ?thesis by auto
    qed
  qed
  moreover have "robot_links ?w"
    using a(2) by (simp add: robot_links_def fr)
  moreover have "sensor_links ?w"
    using a(3) by (simp add: sensor_links_def fr)
  moreover have "landmark_links ?w"
  proof (rule landmark_linksI)
    fix l k ob
    assume l: "l < length (lmks ?w)" and p: "(k, ob) \<in> set (lmk_observations (lmks ?w ! l))"
    from landmarkSetup_lmks [of sz slamMapPtr w] l p
    have "l < length (lmks w) \<and> (k, ob) \<in> set (lmk_observations (lmks w ! l))"
      by (auto simp: nth_append less_Suc_eq split: if_splits)
    with landmark_linksD [OF a(4), of l k ob]
    show "ob < length (obss ?w) \<and> obs_landmark (obss ?w ! ob) = Some l"
      by (simp add: fr)
  qed
  ultimately show ?thesis by (simp add: linked_def)
qed

lemma newLandmark_linked:
  assumes "linked w"
  shows "linked (snd (newLandmark sz slamMapPtr w))"
proof -
  obtain r w2 where s: "landmarkSetup sz slamMapPtr w = (r, w2)"
    by (cases "landmarkSetup sz slamMapPtr w")
  from landmarkSetup_linked [OF assms, of sz slamMapPtr] s have l2: "linked w2" by simp
  show ?thesis
  proof (cases r)
    case (Inl e)
    with s l2 show ?thesis by (simp add: newLandmark_split)
  next
    case (Inr x)
    obtain lmkPtr rs where x: "x = (lmkPtr, rs)" by (cases x)
    from observeRobots_linked [OF l2, of rs lmkPtr]
    show ?thesis using s Inr x
      by (auto simp: newLandmark_split split: prod.splits sum.splits)
  qed
qed

lemma guardedSensor_linked:
  "linked w \<Longrightarrow> linked (snd (guardedSensor sz slamMapPtr robPtr name isInMap w))"
  using newSensor_linked [of w sz robPtr name isInMap]
  by (auto simp: guardedSensor_def split: option.splits prod.splits sum.splits)

lemma initSlam_linked:
  assumes "linked w"
  shows "linked (snd (initSlam sz size_map w))"
proof -
  let ?m = "length (maps w)"
  obtain w0 where nm: "newMap size_map w = (Inr ?m, w0)" by (simp add: newMap_def)
  from newMap_linked [OF assms, of size_map] nm have l0: "linked w0" by simp
  obtain r1 w1 where s1: "newRobot sz ?m ''SUBMARINE'' w0 = (r1, w1)"
    by (cases "newRobot sz ?m ''SUBMARINE'' w0")
  from newRobot_linked [OF l0, of sz ?m "''SUBMARINE''"] s1 have l1: "linked w1" by simp
  have g: "linked (snd (guardedSensor sz ?m robPtr ''MARLIN'' True
             (snd (guardedSensor sz ?m robPtr ''FLEA'' False w1))))" for robPtr
    by (intro guardedSensor_linked l1)
  have g1: "linked (snd (guardedSensor sz ?m robPtr ''FLEA'' False w1))" for robPtr
    by (intro guardedSensor_linked l1)
  show ?thesis
  proof (cases r1)
    case (Inl e)
    with nm s1 l0 l1 show ?thesis
      by (simp add: initSlam_def split: option.splits)
  next
    case (Inr robPtr)
    obtain r2 w2 where s2: "guardedSensor sz ?m robPtr ''FLEA'' False w1 = (r2, w2)"
      by (cases "guardedSensor sz ?m robPtr ''FLEA'' False w1")
    obtain r3 w3 where s3: "guardedSensor sz ?m robPtr ''MARLIN'' True w2 = (r3, w3)"
      by (cases "guardedSensor sz ?m robPtr ''MARLIN'' True w2")
    from g1 [of robPtr] s2 have l2: "linked w2" by simp
    from g [of robPtr] s2 s3 have l3: "linked w3" by simp
    from nm s1 Inr s2 s3 l0 l2 l3 show ?thesis
      by (simp add: initSlam_def split: option.splits sum.splits)
  qed
qed

lemma exec_linked: "linked w \<Longrightarrow> linked (exec sz c w)"
  by (cases c)
    (simp_all add: initSlam_linked newMap_linked newRobot_linked newSensor_linked
      newLandmark_linked newObservation_linked)

lemma run_linked: "linked w \<Longrightarrow> linked (run sz cmds w)"
  unfolding run_def by (induction cmds arbitrary: w) (simp_all add: exec_linked)

lemma empty_world_linked: "linked empty_world"
  by (simp add: linked_def map_links_def robot_links_def sensor_links_def landmark_links_def
      empty_world_def)



subsection \<open>The new entity is linked in both directions\<close>

lemma newRobot_links_new:
  assumes "newRobot sz slamMapPtr name w = (Inr robPtr, w')"
  shows "slamMapPtr < length (maps w') \<and> robPtr < length (robs w') \<and>
         (rob_id (robs w' ! robPtr), robPtr) \<in> set (robots (maps w' ! slamMapPtr)) \<and>
         rob_slamMap (robs w' ! robPtr) = Some slamMapPtr"
  using assms
  by (auto simp: newRobot_def Let_def deref_def allocate_def linkToRobot_def map_put_mem
      split: option.splits prod.splits sum.splits if_splits)

lemma newSensor_links_new:
  assumes "newSensor sz robPtr name isInMap w = (Inr senPtr, w')"
  shows "robPtr < length (robs w') \<and> senPtr < length (sens w') \<and>
         (sen_id (sens w' ! senPtr), senPtr) \<in> set (rob_sensors (robs w' ! robPtr)) \<and>
         sen_robot (sens w' ! senPtr) = Some robPtr"
  using assms
  by (auto simp: newSensor_def Let_def deref_def allocate_def linkToSensor_def map_put_mem
      split: option.splits prod.splits sum.splits if_splits)

lemma newObservation_links_new:
  assumes "newObservation senPtr lmkPtr w = (Inr obsPtr, w')"
  shows "senPtr < length (sens w') \<and> lmkPtr < length (lmks w') \<and> obsPtr < length (obss w') \<and>
         (obs_id (obss w' ! obsPtr), obsPtr) \<in> set (sen_observations (sens w' ! senPtr)) \<and>
         (obs_id (obss w' ! obsPtr), obsPtr) \<in> set (lmk_observations (lmks w' ! lmkPtr)) \<and>
         obs_sensor (obss w' ! obsPtr) = Some senPtr \<and>
         obs_landmark (obss w' ! obsPtr) = Some lmkPtr"
  using assms
  by (auto simp: newObservation_def Let_def deref_def sen_linkToObservation_def
      lmk_linkToObservation_def map_put_mem split: option.splits if_splits)

lemma landmarkSetup_links_new:
  assumes "landmarkSetup sz slamMapPtr w = (Inr (lmkPtr, rs), w')"
  shows "slamMapPtr < length (maps w') \<and> lmkPtr < length (lmks w') \<and>
         (lmk_id (lmks w' ! lmkPtr), lmkPtr) \<in> set (landmarks (maps w' ! slamMapPtr)) \<and>
         lmk_slamMap (lmks w' ! lmkPtr) = Some slamMapPtr"
  using assms
  by (auto simp: landmarkSetup_def Let_def deref_def allocate_def linkToLandmark_def map_put_mem
      split: option.splits prod.splits sum.splits if_splits)

lemma newObservation_lmk_id:
  "l < length (lmks w) \<Longrightarrow>
   lmk_id (lmks (snd (newObservation senPtr lmkPtr w)) ! l) = lmk_id (lmks w ! l)"
  by (auto simp: newObservation_def Let_def deref_def lmk_linkToObservation_def nth_list_update
      split: option.splits if_splits)

lemma same_landmarks_refl: "same_landmarks w w"
  by (simp add: same_landmarks_def)

lemma same_landmarks_trans:
  "same_landmarks w w' \<Longrightarrow> same_landmarks w' w'' \<Longrightarrow> same_landmarks w w''"
  by (simp add: same_landmarks_def)

lemma newObservation_same_landmarks:
  "same_landmarks w (snd (newObservation senPtr lmkPtr w))"
  by (simp add: same_landmarks_def newObservation_frame newObservation_lmk_id newObservation_lmks(1))

lemma observeSensors_same_landmarks:
  "same_landmarks w (snd (observeSensors ss lmkPtr w))"
proof (induction ss arbitrary: w)
  case Nil
  show ?case by (simp add: same_landmarks_refl)
next
  case (Cons a ss)
  obtain sid senPtr where a: "a = (sid, senPtr)" by (cases a)
  obtain r w' where r: "newObservation senPtr lmkPtr w = (r, w')"
    by (cases "newObservation senPtr lmkPtr w")
  from newObservation_same_landmarks [of w senPtr lmkPtr] r have l: "same_landmarks w w'" by simp
  show ?case
  proof (cases r)
    case (Inl e)
    with a r l show ?thesis by simp
  next
    case (Inr obsPtr)
    with a r same_landmarks_trans [OF l Cons.IH [of w']] show ?thesis by simp
  qed
qed

lemma observeRobots_same_landmarks:
  "same_landmarks w (snd (observeRobots rs lmkPtr w))"
proof (induction rs arbitrary: w)
  case Nil
  show ?case by (simp add: same_landmarks_refl)
next
  case (Cons a rs)
  obtain rid robPtr where a: "a = (rid, robPtr)" by (cases a)
  show ?case
  proof (cases "deref (robs w) robPtr")
    case None
    with a show ?thesis by (simp add: same_landmarks_refl)
  next
    case (Some rob)
    obtain r w' where r: "observeSensors (rob_sensors rob) lmkPtr w = (r, w')"
      by (cases "observeSensors (rob_sensors rob) lmkPtr w")
    from observeSensors_same_landmarks [of w "rob_sensors rob" lmkPtr] r
    have l: "same_landmarks w w'" by simp
    show ?thesis
    proof (cases r)
      case (Inl e)
      with a r l Some show ?thesis by simp
    next
      case (Inr u)
      with a r Some same_landmarks_trans [OF l Cons.IH [of w']] show ?thesis by simp
    qed
  qed
qed

lemma newLandmark_links_new:
  assumes "newLandmark sz slamMapPtr w = (Inr lmkPtr, w')"
  shows "slamMapPtr < length (maps w') \<and> lmkPtr < length (lmks w') \<and>
         (lmk_id (lmks w' ! lmkPtr), lmkPtr) \<in> set (landmarks (maps w' ! slamMapPtr)) \<and>
         lmk_slamMap (lmks w' ! lmkPtr) = Some slamMapPtr"
proof -
  from assms obtain rs w2 where s: "landmarkSetup sz slamMapPtr w = (Inr (lmkPtr, rs), w2)"
    and o: "snd (observeRobots rs lmkPtr w2) = w'"
    by (auto simp: newLandmark_split split: prod.splits sum.splits)
  from observeRobots_same_landmarks [of w2 rs lmkPtr] o have "same_landmarks w2 w'" by simp
  with landmarkSetup_links_new [OF s] show ?thesis
    by (simp add: same_landmarks_def)
qed

subsection \<open>Observation ids\<close>

lemma newObservation_ids_zero: "ids_zero w \<Longrightarrow> ids_zero (snd (newObservation senPtr lmkPtr w))"
  by (auto simp: ids_zero_def newObservation_frame nth_append)

lemma observeSensors_ids_zero: "ids_zero w \<Longrightarrow> ids_zero (snd (observeSensors ss lmkPtr w))"
proof (induction ss arbitrary: w)
  case Nil
  then show ?case by simp
next
  case (Cons a ss)
  obtain sid senPtr where a: "a = (sid, senPtr)" by (cases a)
  obtain r w' where r: "newObservation senPtr lmkPtr w = (r, w')"
    by (cases "newObservation senPtr lmkPtr w")
  from newObservation_ids_zero [OF Cons.prems, of senPtr lmkPtr] r have l: "ids_zero w'" by simp
  show ?case
  proof (cases r)
    case (Inl e)
    with a r l show ?thesis by simp
  next
    case (Inr obsPtr)
    with a r Cons.IH [OF l] show ?thesis by simp
  qed
qed

lemma observeRobots_ids_zero: "ids_zero w \<Longrightarrow> ids_zero (snd (observeRobots rs lmkPtr w))"
proof (induction rs arbitrary: w)
  case Nil
  then show ?case by simp
next
  case (Cons a rs)
  obtain rid robPtr where a: "a = (rid, robPtr)" by (cases a)
  show ?case
  proof (cases "deref (robs w) robPtr")
    case None
    with a Cons.prems show ?thesis by simp
  next
    case (Some rob)
    obtain r w' where r: "observeSensors (rob_sensors rob) lmkPtr w = (r, w')"
      by (cases "observeSensors (rob_sensors rob) lmkPtr w")
    from observeSensors_ids_zero [OF Cons.prems, of "rob_sensors rob" lmkPtr] r
    have l: "ids_zero w'" by simp
    show ?thesis
    proof (cases r)
      case (Inl e)
      with a r l Some show ?thesis by simp
    next
      case (Inr u)
      with a r Some Cons.IH [OF l] show ?thesis by simp
    qed
  qed
qed

lemma newLandmark_ids_zero:
  assumes "ids_zero w"
  shows "ids_zero (snd (newLandmark sz slamMapPtr w))"
proof -
  obtain r w2 where s: "landmarkSetup sz slamMapPtr w = (r, w2)"
    by (cases "landmarkSetup sz slamMapPtr w")
  from assms landmarkSetup_frame(3) [of sz slamMapPtr w] s have l2: "ids_zero w2"
    by (simp add: ids_zero_def)
  show ?thesis
  proof (cases r)
    case (Inl e)
    with s l2 show ?thesis by (simp add: newLandmark_split)
  next
    case (Inr x)
    obtain lmkPtr rs where x: "x = (lmkPtr, rs)" by (cases x)
    from observeRobots_ids_zero [OF l2, of rs lmkPtr]
    show ?thesis using s Inr x
      by (auto simp: newLandmark_split split: prod.splits sum.splits)
  qed
qed

lemma guardedSensor_obss:
  "obss (snd (guardedSensor sz slamMapPtr robPtr name isInMap w)) = obss w"
  using newSensor_frame(2) [of sz robPtr name isInMap w]
  by (auto simp: guardedSensor_def split: option.splits prod.splits sum.splits)

lemma initSlam_obss: "obss (snd (initSlam sz size_map w)) = obss w"
proof -
  let ?m = "length (maps w)"
  obtain w0 where nm: "newMap size_map w = (Inr ?m, w0)" and o0: "obss w0 = obss w"
    by (simp add: newMap_def)
  obtain r1 w1 where s1: "newRobot sz ?m ''SUBMARINE'' w0 = (r1, w1)"
    by (cases "newRobot sz ?m ''SUBMARINE'' w0")
  from newRobot_frame(3) [of sz ?m "''SUBMARINE''" w0] s1 o0 have o1: "obss w1 = obss w" by simp
  show ?thesis
  proof (cases r1)
    case (Inl e)
    with nm s1 o0 o1 show ?thesis
      by (simp add: initSlam_def split: option.splits)
  next
    case (Inr robPtr)
    obtain r2 w2 where s2: "guardedSensor sz ?m robPtr ''FLEA'' False w1 = (r2, w2)"
      by (cases "guardedSensor sz ?m robPtr ''FLEA'' False w1")
    obtain r3 w3 where s3: "guardedSensor sz ?m robPtr ''MARLIN'' True w2 = (r3, w3)"
      by (cases "guardedSensor sz ?m robPtr ''MARLIN'' True w2")
    from guardedSensor_obss [of sz ?m robPtr "''FLEA''" False w1] s2 o1
    have o2: "obss w2 = obss w" by simp
    from guardedSensor_obss [of sz ?m robPtr "''MARLIN''" True w2] s3 o2
    have o3: "obss w3 = obss w" by simp
    from nm s1 Inr s2 s3 o0 o2 o3 show ?thesis
      by (simp add: initSlam_def split: option.splits sum.splits)
  qed
qed

lemma exec_ids_zero: "ids_zero w \<Longrightarrow> ids_zero (exec sz c w)"
  by (cases c)
    (simp_all add: newLandmark_ids_zero newObservation_ids_zero,
     simp_all add: ids_zero_def initSlam_obss newRobot_frame newSensor_frame newMap_def)

lemma run_ids_zero: "ids_zero w \<Longrightarrow> ids_zero (run sz cmds w)"
  unfolding run_def by (induction cmds arbitrary: w) (simp_all add: exec_ids_zero)

lemma empty_world_ids_zero: "ids_zero empty_world"
  by (simp add: ids_zero_def empty_world_def)



subsection \<open>The claims about the entity graph\<close>

text \<open>
  Claim C1. The claim asks that a new landmark gets one observation per sensor, each
  held by the landmark's mapping and by its sensor's mapping, so that S sensors and L
  landmarks give S times L observations. In the world of \<open>initSlam(300)\<close> (one
  robot, two sensors) followed by one newLandmark, two observations are created, both
  with id 0 and both pointing back to the landmark, but the landmark's mapping holds
  only the second one: it was stored under the key 0 of the first.
\<close>

theorem fanout_collides_on_observation_id:
  "length (sens world_one_landmark) = 2 \<and>
   length (lmks world_one_landmark) = 1 \<and>
   length (obss world_one_landmark) = 2 \<and>
   obs_sensor (obss world_one_landmark ! 0) = Some 0 \<and>
   obs_landmark (obss world_one_landmark ! 0) = Some 0 \<and>
   obs_sensor (obss world_one_landmark ! 1) = Some 1 \<and>
   obs_landmark (obss world_one_landmark ! 1) = Some 0 \<and>
   sen_observations (sens world_one_landmark ! 0) = [(0, 0)] \<and>
   sen_observations (sens world_one_landmark ! 1) = [(0, 1)] \<and>
   lmk_observations (lmks world_one_landmark ! 0) = [(0, 1)]"
  unfolding world_one_landmark_def rtslam_sizes_def by code_simp

text \<open>
  Claim C3, as stated, fails: on a map with no room for a robot, newRobot ends with the
  capacity error after it has taken an id from \<open>robotIds\<close>; the pool's counter
  has moved from 1 to 2 and the world is not the one before the call.
\<close>

theorem newRobot_consumes_id_on_failure:
  "fst (newRobot rtslam_sizes 0 ''R'' world_full_map) = Inl CapacityExceeded \<and>
   counter (robotIds (maps world_full_map ! 0)) = 1 \<and>
   counter (robotIds (maps (snd (newRobot rtslam_sizes 0 ''R'' world_full_map)) ! 0)) = 2 \<and>
   snd (newRobot rtslam_sizes 0 ''R'' world_full_map) \<noteq> world_full_map"
  unfolding world_full_map_def rtslam_sizes_def by code_simp

text \<open>
  Claim C3, amended. When the state arena cannot allocate the robot's slot, newRobot
  fails with the capacity error and registers no robot: the world it leaves differs
  from the one before only in \<open>robotIds\<close>, which has issued the id taken before the
  allocation. When the arena can allocate the slot, newRobot succeeds and the robot is
  fully created and linked: the id is taken from the pool, the slot is the next free
  states and is recorded as used, the robot is stored in the map under its id and its
  back-reference is the map. The caller initSlam probes \<open>unusedStates\<close> first; when
  the probe fails it calls nothing after the creation of the map, so no id is taken and
  no robot exists.
\<close>

theorem robot_creation_outcomes:
  "(deref (maps w) slamMapPtr = Some m \<and> \<not> unusedStates m (size_robCV sz) \<longrightarrow>
      newRobot sz slamMapPtr name w =
        (Inl CapacityExceeded,
         w\<lparr>maps := (maps w)[slamMapPtr := m\<lparr>robotIds := snd (getId (robotIds m))\<rparr>]\<rparr>)) \<and>
   (deref (maps w) slamMapPtr = Some m \<and> unusedStates m (size_robCV sz) \<longrightarrow>
      newRobot sz slamMapPtr name w =
        (Inr (length (robs w)),
         w\<lparr>maps := (maps w)[slamMapPtr :=
                    m\<lparr>robotIds := snd (getId (robotIds m)),
                      used_states := used_states m + size_robCV sz,
                      robots := map_put (fst (getId (robotIds m))) (length (robs w)) (robots m)\<rparr>],
           robs := robs w @
                    [\<lparr>rob_id = fst (getId (robotIds m)), rob_name = name,
                      rob_state = [used_states m ..< used_states m + size_robCV sz],
                      rob_sensors = [], rob_slamMap = Some slamMapPtr\<rparr>]\<rparr>) \<and>
      (rob_id (robs (snd (newRobot sz slamMapPtr name w)) ! length (robs w)), length (robs w))
         \<in> set (robots (maps (snd (newRobot sz slamMapPtr name w)) ! slamMapPtr)) \<and>
      rob_slamMap (robs (snd (newRobot sz slamMapPtr name w)) ! length (robs w)) = Some slamMapPtr) \<and>
   (\<not> unusedStates (new_MapAbstract size_map) (size_robCV sz) \<longrightarrow>
      initSlam sz size_map w = newMap size_map w \<and>
      robs (snd (initSlam sz size_map w)) = robs w \<and>
      maps (snd (initSlam sz size_map w)) = maps w @ [new_MapAbstract size_map])"
proof (intro conjI impI)
  assume a: "deref (maps w) slamMapPtr = Some m \<and> \<not> unusedStates m (size_robCV sz)"
  then show "newRobot sz slamMapPtr name w =
        (Inl CapacityExceeded,
         w\<lparr>maps := (maps w)[slamMapPtr := m\<lparr>robotIds := snd (getId (robotIds m))\<rparr>]\<rparr>)"
    by (simp add: newRobot_def Let_def allocate_def unusedStates_def split: prod.splits)
next
  assume a: "deref (maps w) slamMapPtr = Some m \<and> unusedStates m (size_robCV sz)"
  then show e: "newRobot sz slamMapPtr name w =
        (Inr (length (robs w)),
         w\<lparr>maps := (maps w)[slamMapPtr :=
                    m\<lparr>robotIds := snd (getId (robotIds m)),
                      used_states := used_states m + size_robCV sz,
                      robots := map_put (fst (getId (robotIds m))) (length (robs w)) (robots m)\<rparr>],
           robs := robs w @
                    [\<lparr>rob_id = fst (getId (robotIds m)), rob_name = name,
                      rob_state = [used_states m ..< used_states m + size_robCV sz],
                      rob_sensors = [], rob_slamMap = Some slamMapPtr\<rparr>]\<rparr>)"
    by (simp add: newRobot_def Let_def allocate_def unusedStates_def linkToRobot_def
        split: prod.splits)
  from newRobot_links_new [OF e]
  show "(rob_id (robs (snd (newRobot sz slamMapPtr name w)) ! length (robs w)), length (robs w))
         \<in> set (robots (maps (snd (newRobot sz slamMapPtr name w)) ! slamMapPtr))"
    by (auto simp: e)
  from newRobot_links_new [OF e]
  show "rob_slamMap (robs (snd (newRobot sz slamMapPtr name w)) ! length (robs w)) = Some slamMapPtr"
    by (auto simp: e)
next
  assume "\<not> unusedStates (new_MapAbstract size_map) (size_robCV sz)"
  then show "initSlam sz size_map w = newMap size_map w"
    by (simp add: initSlam_def newMap_def deref_def)
next
  assume "\<not> unusedStates (new_MapAbstract size_map) (size_robCV sz)"
  then show "robs (snd (initSlam sz size_map w)) = robs w"
    by (simp add: initSlam_def newMap_def deref_def)
next
  assume "\<not> unusedStates (new_MapAbstract size_map) (size_robCV sz)"
  then show "maps (snd (initSlam sz size_map w)) = maps w @ [new_MapAbstract size_map]"
    by (simp add: initSlam_def newMap_def deref_def)
qed

theorem robot_creation_outcomes_witness:
  "(deref (maps world_full_map) 0 = Some (new_MapAbstract 5) \<and>
    \<not> unusedStates (new_MapAbstract 5) (size_robCV rtslam_sizes)) \<and>
   newRobot rtslam_sizes 0 ''SUBMARINE'' world_full_map =
     (Inl CapacityExceeded,
      world_full_map\<lparr>maps := (maps world_full_map)
         [0 := (new_MapAbstract 5)\<lparr>robotIds := snd (getId (robotIds (new_MapAbstract 5)))\<rparr>]\<rparr>) \<and>
   (deref (maps world_roomy_map) 0 = Some (new_MapAbstract 300) \<and>
    unusedStates (new_MapAbstract 300) (size_robCV rtslam_sizes)) \<and>
   fst (newRobot rtslam_sizes 0 ''SUBMARINE'' world_roomy_map) = Inr 0 \<and>
   rob_slamMap (robs (snd (newRobot rtslam_sizes 0 ''SUBMARINE'' world_roomy_map)) ! 0) = Some 0 \<and>
   initSlam rtslam_sizes 5 empty_world = newMap 5 empty_world"
proof -
  have h1: "deref (maps world_full_map) 0 = Some (new_MapAbstract 5)"
    by (simp add: world_full_map_def newMap_def empty_world_def deref_def)
  have h2: "\<not> unusedStates (new_MapAbstract 5) (size_robCV rtslam_sizes)"
    by (simp add: unusedStates_def new_MapAbstract_def rtslam_sizes_def)
  have h3: "deref (maps world_roomy_map) 0 = Some (new_MapAbstract 300)"
    by (simp add: world_roomy_map_def newMap_def empty_world_def deref_def)
  have h4: "unusedStates (new_MapAbstract 300) (size_robCV rtslam_sizes)"
    by (simp add: unusedStates_def new_MapAbstract_def rtslam_sizes_def)
  have l: "length (robs world_roomy_map) = 0"
    by (simp add: world_roomy_map_def newMap_def empty_world_def)
  from robot_creation_outcomes [where w = world_full_map and slamMapPtr = 0
      and m = "new_MapAbstract 5" and sz = rtslam_sizes and name = "''SUBMARINE''"
      and size_map = 5] h1 h2
  have a: "newRobot rtslam_sizes 0 ''SUBMARINE'' world_full_map =
     (Inl CapacityExceeded,
      world_full_map\<lparr>maps := (maps world_full_map)
         [0 := (new_MapAbstract 5)\<lparr>robotIds := snd (getId (robotIds (new_MapAbstract 5)))\<rparr>]\<rparr>)"
    by blast
  from robot_creation_outcomes [where w = world_roomy_map and slamMapPtr = 0
      and m = "new_MapAbstract 300" and sz = rtslam_sizes and name = "''SUBMARINE''"
      and size_map = 5] h3 h4 l
  have b: "fst (newRobot rtslam_sizes 0 ''SUBMARINE'' world_roomy_map) = Inr 0 \<and>
     rob_slamMap (robs (snd (newRobot rtslam_sizes 0 ''SUBMARINE'' world_roomy_map)) ! 0) = Some 0"
    by simp
  from robot_creation_outcomes [where w = empty_world and sz = rtslam_sizes and size_map = 5] h2
  have c: "initSlam rtslam_sizes 5 empty_world = newMap 5 empty_world"
    by blast
  from h1 h2 h3 h4 a b c show ?thesis by blast
qed

lemma newObservation_example:
  "newObservation 0 0 world_one_landmark = (Inr 2, snd (newObservation 0 0 world_one_landmark))"
  unfolding world_one_landmark_def rtslam_sizes_def by code_simp

lemma newRobot_example:
  "newRobot rtslam_sizes 0 ''AEROPLANE'' world_one_landmark =
     (Inr 1, snd (newRobot rtslam_sizes 0 ''AEROPLANE'' world_one_landmark))"
  unfolding world_one_landmark_def rtslam_sizes_def by code_simp

lemma newSensor_example:
  "newSensor rtslam_sizes 0 ''FLEA2'' False world_one_landmark =
     (Inr 2, snd (newSensor rtslam_sizes 0 ''FLEA2'' False world_one_landmark))"
  unfolding world_one_landmark_def rtslam_sizes_def by code_simp

lemma newLandmark_example:
  "newLandmark rtslam_sizes 0 world_one_landmark =
     (Inr 1, snd (newLandmark rtslam_sizes 0 world_one_landmark))"
  unfolding world_one_landmark_def rtslam_sizes_def by code_simp

lemma world_one_landmark_linked: "linked world_one_landmark"
proof -
  have "world_one_landmark = exec rtslam_sizes (NewLandmark 0)
          (exec rtslam_sizes (InitSlam 300) empty_world)"
    by (simp add: world_one_landmark_def)
  moreover have "linked (exec rtslam_sizes (NewLandmark 0)
          (exec rtslam_sizes (InitSlam 300) empty_world))"
    by (intro exec_linked empty_world_linked)
  ultimately show ?thesis by (simp only:)
qed

text \<open>
  What does hold of the links. Every operation keeps the forward links of the whole
  store: what an owner's mapping contains is an object whose back-reference points to
  that owner. And each operation that succeeds has made both directions of the link
  of its new entity. The converse, that an object whose back-reference points to an
  owner is held by that owner's mapping, is not kept: see the evaluations below.
\<close>

lemma forward_links_preserved:
  assumes "linked w"
  shows "linked (exec sz c w) \<and>
    (newRobot sz slamMapPtr name w = (Inr robPtr, w1) \<longrightarrow>
       slamMapPtr < length (maps w1) \<and> robPtr < length (robs w1) \<and>
       (rob_id (robs w1 ! robPtr), robPtr) \<in> set (robots (maps w1 ! slamMapPtr)) \<and>
       rob_slamMap (robs w1 ! robPtr) = Some slamMapPtr) \<and>
    (newSensor sz robPtr' name' isInMap w = (Inr senPtr, w2) \<longrightarrow>
       robPtr' < length (robs w2) \<and> senPtr < length (sens w2) \<and>
       (sen_id (sens w2 ! senPtr), senPtr) \<in> set (rob_sensors (robs w2 ! robPtr')) \<and>
       sen_robot (sens w2 ! senPtr) = Some robPtr') \<and>
    (newObservation senPtr' lmkPtr' w = (Inr obsPtr, w3) \<longrightarrow>
       senPtr' < length (sens w3) \<and> lmkPtr' < length (lmks w3) \<and> obsPtr < length (obss w3) \<and>
       (obs_id (obss w3 ! obsPtr), obsPtr) \<in> set (sen_observations (sens w3 ! senPtr')) \<and>
       (obs_id (obss w3 ! obsPtr), obsPtr) \<in> set (lmk_observations (lmks w3 ! lmkPtr')) \<and>
       obs_sensor (obss w3 ! obsPtr) = Some senPtr' \<and>
       obs_landmark (obss w3 ! obsPtr) = Some lmkPtr') \<and>
    (newLandmark sz slamMapPtr' w = (Inr lmkPtr, w4) \<longrightarrow>
       slamMapPtr' < length (maps w4) \<and> lmkPtr < length (lmks w4) \<and>
       (lmk_id (lmks w4 ! lmkPtr), lmkPtr) \<in> set (landmarks (maps w4 ! slamMapPtr')) \<and>
       lmk_slamMap (lmks w4 ! lmkPtr) = Some slamMapPtr') \<and>
    linked (run sz cmds empty_world)"
proof (intro conjI impI)
  show "linked (exec sz c w)" by (rule exec_linked [OF assms])
  show "linked (run sz cmds empty_world)" by (rule run_linked [OF empty_world_linked])
qed (simp_all add: newRobot_links_new newSensor_links_new newObservation_links_new
    newLandmark_links_new)

lemma forward_links_preserved_example:
  "linked world_one_landmark \<and>
   linked (exec rtslam_sizes (NewLandmark 0) world_one_landmark) \<and>
   newRobot rtslam_sizes 0 ''AEROPLANE'' world_one_landmark =
     (Inr 1, snd (newRobot rtslam_sizes 0 ''AEROPLANE'' world_one_landmark)) \<and>
   rob_slamMap (robs (snd (newRobot rtslam_sizes 0 ''AEROPLANE'' world_one_landmark)) ! 1) = Some 0 \<and>
   newSensor rtslam_sizes 0 ''FLEA2'' False world_one_landmark =
     (Inr 2, snd (newSensor rtslam_sizes 0 ''FLEA2'' False world_one_landmark)) \<and>
   sen_robot (sens (snd (newSensor rtslam_sizes 0 ''FLEA2'' False world_one_landmark)) ! 2) = Some 0 \<and>
   newObservation 0 0 world_one_landmark =
     (Inr 2, snd (newObservation 0 0 world_one_landmark)) \<and>
   obs_sensor (obss (snd (newObservation 0 0 world_one_landmark)) ! 2) = Some 0 \<and>
   obs_landmark (obss (snd (newObservation 0 0 world_one_landmark)) ! 2) = Some 0 \<and>
   newLandmark rtslam_sizes 0 world_one_landmark =
     (Inr 1, snd (newLandmark rtslam_sizes 0 world_one_landmark)) \<and>
   lmk_slamMap (lmks (snd (newLandmark rtslam_sizes 0 world_one_landmark)) ! 1) = Some 0 \<and>
   linked (run rtslam_sizes [InitSlam 300, NewLandmark 0, NewLandmark 0] empty_world)"
  using forward_links_preserved [OF world_one_landmark_linked,
      where sz = rtslam_sizes and c = "NewLandmark 0"
      and slamMapPtr = 0 and name = "''AEROPLANE''" and robPtr = 1
      and ?w1.0 = "snd (newRobot rtslam_sizes 0 ''AEROPLANE'' world_one_landmark)"
      and robPtr' = 0 and name' = "''FLEA2''" and isInMap = False and senPtr = 2
      and ?w2.0 = "snd (newSensor rtslam_sizes 0 ''FLEA2'' False world_one_landmark)"
      and senPtr' = 0 and lmkPtr' = 0 and obsPtr = 2
      and ?w3.0 = "snd (newObservation 0 0 world_one_landmark)"
      and slamMapPtr' = 0 and lmkPtr = 1
      and ?w4.0 = "snd (newLandmark rtslam_sizes 0 world_one_landmark)"
      and cmds = "[InitSlam 300, NewLandmark 0, NewLandmark 0]"]
    world_one_landmark_linked newRobot_example newSensor_example newObservation_example
    newLandmark_example
  by simp

text \<open>
  Claim C4. The claim asks that links exist in both directions once an operation has
  completed, no entity being left partially linked. After \<open>initSlam(300)\<close> and one
  successful newLandmark, the first observation points back to landmark 0 and is held
  by its sensor, but landmark 0's mapping holds only the second observation. One more
  newObservation for the second sensor and landmark 0 displaces that one in turn, from
  the sensor's mapping and from the landmark's, while its two back-references stay.
\<close>

theorem newLandmark_leaves_observation_half_linked:
  "fst (newLandmark rtslam_sizes 0 (snd (initSlam rtslam_sizes 300 empty_world))) = Inr 0 \<and>
   obs_sensor (obss world_one_landmark ! 0) = Some 0 \<and>
   obs_landmark (obss world_one_landmark ! 0) = Some 0 \<and>
   sen_observations (sens world_one_landmark ! 0) = [(0, 0)] \<and>
   lmk_observations (lmks world_one_landmark ! 0) = [(0, 1)] \<and>
   fst (newObservation 1 0 world_one_landmark) = Inr 2 \<and>
   obs_sensor (obss (snd (newObservation 1 0 world_one_landmark)) ! 1) = Some 1 \<and>
   obs_landmark (obss (snd (newObservation 1 0 world_one_landmark)) ! 1) = Some 0 \<and>
   sen_observations (sens (snd (newObservation 1 0 world_one_landmark)) ! 1) = [(0, 2)] \<and>
   lmk_observations (lmks (snd (newObservation 1 0 world_one_landmark)) ! 0) = [(0, 2)]"
  unfolding world_one_landmark_def rtslam_sizes_def by code_simp

text \<open>
  Claim C9. newSensor creates no observation and leaves every landmark, with its
  observation mapping, as it was: the store of observations and the store of landmarks
  are unchanged, whether the creation succeeds or not.
\<close>

theorem newSensor_no_fanout:
  "obss (snd (newSensor sz robPtr name isInMap w)) = obss w \<and>
   lmks (snd (newSensor sz robPtr name isInMap w)) = lmks w"
  by (simp add: newSensor_frame)

theorem newSensor_no_fanout_witness:
  "obss (snd (newSensor rtslam_sizes 0 ''FLEA2'' False world_one_landmark)) =
     obss world_one_landmark \<and>
   lmks (snd (newSensor rtslam_sizes 0 ''FLEA2'' False world_one_landmark)) =
     lmks world_one_landmark"
  using newSensor_no_fanout [of rtslam_sizes 0 "''FLEA2''" False world_one_landmark]
  by simp

text \<open>
  Claim C10. The observation made by newObservation has the id 0, and after every run
  of creations from the empty world every observation of the store has the id 0, so
  any two of them have the same id.
\<close>

theorem observation_ids_are_zero:
  "(newObservation senPtr lmkPtr w = (Inr obsPtr, w') \<longrightarrow> obs_id (obss w' ! obsPtr) = 0) \<and>
   (p < length (obss (run sz cmds empty_world)) \<and> q < length (obss (run sz cmds empty_world)) \<longrightarrow>
      obs_id (obss (run sz cmds empty_world) ! p) = 0 \<and>
      obs_id (obss (run sz cmds empty_world) ! p) = obs_id (obss (run sz cmds empty_world) ! q))"
proof (intro conjI impI)
  assume "newObservation senPtr lmkPtr w = (Inr obsPtr, w')"
  then show "obs_id (obss w' ! obsPtr) = 0"
    by (auto simp: newObservation_def Let_def split: option.splits)
next
  let ?w = "run sz cmds empty_world"
  assume a: "p < length (obss ?w) \<and> q < length (obss ?w)"
  have z: "ids_zero ?w" by (rule run_ids_zero [OF empty_world_ids_zero])
  from a z show "obs_id (obss ?w ! p) = 0" by (simp add: ids_zero_def)
  from a z show "obs_id (obss ?w ! p) = obs_id (obss ?w ! q)" by (simp add: ids_zero_def)
qed

lemma run_example_obss:
  "obss (run rtslam_sizes [InitSlam 300, NewLandmark 0] empty_world) =
     [\<lparr>obs_id = 0, obs_sensor = Some 0, obs_landmark = Some 0\<rparr>,
      \<lparr>obs_id = 0, obs_sensor = Some 1, obs_landmark = Some 0\<rparr>]"
  unfolding rtslam_sizes_def by code_simp

theorem observation_ids_are_zero_witness:
  "newObservation 0 0 world_one_landmark = (Inr 2, snd (newObservation 0 0 world_one_landmark)) \<and>
   obs_id (obss (snd (newObservation 0 0 world_one_landmark)) ! 2) = 0 \<and>
   0 < length (obss (run rtslam_sizes [InitSlam 300, NewLandmark 0] empty_world)) \<and>
   1 < length (obss (run rtslam_sizes [InitSlam 300, NewLandmark 0] empty_world)) \<and>
   obs_id (obss (run rtslam_sizes [InitSlam 300, NewLandmark 0] empty_world) ! 0) =
   obs_id (obss (run rtslam_sizes [InitSlam 300, NewLandmark 0] empty_world) ! 1)"
  using observation_ids_are_zero [where senPtr = 0 and lmkPtr = 0 and w = world_one_landmark
      and obsPtr = 2 and w' = "snd (newObservation 0 0 world_one_landmark)"
      and p = 0 and q = 1 and sz = rtslam_sizes and cmds = "[InitSlam 300, NewLandmark 0]"]
    newObservation_example
  by (simp add: run_example_obss)

lemma upt_0_2: "[0..<2] = [0, 1::nat]"
  by code_simp

text \<open>
  Claim C5. An entry of the covariance whose row and column are both outside the
  robot's slot is unchanged by predict. In the scenario of a robot with the states 0 and
  1, the identity Jacobian and no noise, every entry with a row or a column outside the
  robot's slot (the landmark's block and the cross terms) is unchanged, and the
  robot's own block is the product of the Jacobian, the old block and the transposed
  Jacobian.
\<close>

theorem predict_frame:
  "(i \<notin> set ia_v \<and> j \<notin> set ia_v \<longrightarrow> predict P ia_x F ia_v Q i j = P i j) \<and>
   (2 \<le> i \<or> 2 \<le> j \<longrightarrow> predict P ia_x identity_jacobian [0, 1] zero_noise i j = P i j) \<and>
   (i < 2 \<and> j < 2 \<longrightarrow>
      predict P ia_x identity_jacobian [0, 1] zero_noise i j =
        (\<Sum>a\<leftarrow>[0..<2]. \<Sum>b\<leftarrow>[0..<2]. identity_jacobian i a * P a b * identity_jacobian j b))"
proof (intro conjI impI)
  assume "i \<notin> set ia_v \<and> j \<notin> set ia_v"
  then show "predict P ia_x F ia_v Q i j = P i j"
    by (simp add: predict_def)
next
  assume a: "2 \<le> i \<or> 2 \<le> j"
  note u = upt_0_2
  show "predict P ia_x identity_jacobian [0, 1] zero_noise i j = P i j"
    using a by (auto simp: predict_def identity_jacobian_def u)
next
  assume a: "i < 2 \<and> j < 2"
  note u = upt_0_2
  from a have i: "i = 0 \<or> i = 1" and j: "j = 0 \<or> j = 1" by auto
  from i j show "predict P ia_x identity_jacobian [0, 1] zero_noise i j =
        (\<Sum>a\<leftarrow>[0..<2]. \<Sum>b\<leftarrow>[0..<2]. identity_jacobian i a * P a b * identity_jacobian j b)"
    by (auto simp: predict_def zero_noise_def u)
qed

theorem predict_frame_witness:
  "(3 \<notin> set [0, 1::nat] \<and> 4 \<notin> set [0, 1::nat]) \<and>
   predict fillMapSeq_P [0, 1, 2, 3, 4] identity_jacobian [0, 1] zero_noise 3 4 = fillMapSeq_P 3 4 \<and>
   predict fillMapSeq_P [0, 1, 2, 3, 4] identity_jacobian [0, 1] zero_noise 0 3 = fillMapSeq_P 0 3 \<and>
   predict fillMapSeq_P [0, 1, 2, 3, 4] identity_jacobian [0, 1] zero_noise 3 1 = fillMapSeq_P 3 1 \<and>
   predict fillMapSeq_P [0, 1, 2, 3, 4] identity_jacobian [0, 1] zero_noise 1 0 =
     (\<Sum>a\<leftarrow>[0..<2]. \<Sum>b\<leftarrow>[0..<2]. identity_jacobian 1 a * fillMapSeq_P a b * identity_jacobian 0 b)"
  using predict_frame [where i = 3 and j = 4 and ia_v = "[0, 1]" and P = fillMapSeq_P
      and ia_x = "[0, 1, 2, 3, 4]" and F = identity_jacobian and Q = zero_noise]
    predict_frame [where i = 0 and j = 3 and P = fillMapSeq_P and ia_x = "[0, 1, 2, 3, 4]"]
    predict_frame [where i = 3 and j = 1 and P = fillMapSeq_P and ia_x = "[0, 1, 2, 3, 4]"]
    predict_frame [where i = 1 and j = 0 and P = fillMapSeq_P and ia_x = "[0, 1, 2, 3, 4]"]
  by simp


end
